theory Spec2Isabelle
  imports Complex_Main
begin

section \<open>Numerical conventions\<close>

text \<open>
  The repository computes with numpy float64 arrays. This development reads every scalar as a
  real number: rounding, overflow and the order of floating-point operations are not modelled.
  What numpy does beyond real arithmetic and what changes the shape of a result is modelled:
  broadcasting of arrays of different shapes, the shape error it raises, the truncation of
  \<^verbatim>\<open>zip\<close>, and the square root or logarithm of an argument that leaves the reals.
\<close>

datatype error =
    BroadcastError   \<comment> \<open>numpy: operands could not be broadcast together\<close>
  | RaggedError      \<comment> \<open>numpy: \<^verbatim>\<open>np.array\<close> of rows of different lengths\<close>
  | UnpackError      \<comment> \<open>Python: wrong number of values to unpack\<close>
  | IndexError       \<comment> \<open>Python: index out of range\<close>
  | DimensionError   \<comment> \<open>numpy: negative dimensions are not allowed\<close>
  | IntegratorError  \<comment> \<open>an exception raised inside a callable passed by the caller\<close>
  | NotReal          \<comment> \<open>no exception: the float result is nan or infinite, outside the reals\<close>

section \<open>numpy arrays\<close>

text \<open>
  A two-dimensional array is its list of rows together with its number of columns, which numpy
  keeps even when there is no row. The shape is \<open>(nrows A, ncols A)\<close>.
\<close>

datatype ndarray2 = NDArray2 (ncols: nat) (rows: "real list list")

definition nrows :: "ndarray2 \<Rightarrow> nat" where
  "nrows A = length (rows A)"

definition wf_array :: "ndarray2 \<Rightarrow> bool" where
  "wf_array A = list_all (\<lambda>r. length r = ncols A) (rows A)"

text \<open>The slice \<^verbatim>\<open>xs[::2]\<close>; the slice \<^verbatim>\<open>xs[1::2]\<close> is \<open>every_other (tl xs)\<close>.\<close>

fun every_other :: "'a list \<Rightarrow> 'a list" where
  "every_other [] = []"
| "every_other [x] = [x]"
| "every_other (x # y # xs) = x # every_other xs"

text \<open>\<^verbatim>\<open>A[:,::2]\<close> and \<^verbatim>\<open>A[:,1::2]\<close>.\<close>

definition even_cols :: "ndarray2 \<Rightarrow> ndarray2" where
  "even_cols A = NDArray2 ((ncols A + 1) div 2) (map every_other (rows A))"

definition odd_cols :: "ndarray2 \<Rightarrow> ndarray2" where
  "odd_cols A = NDArray2 (ncols A div 2) (map (\<lambda>r. every_other (tl r)) (rows A))"

text \<open>
  Broadcasting of one axis: two extents are compatible when they are equal or one of them is 1;
  the extent 1 is stretched to the other one (also to 0), by reading index 0 throughout.
\<close>

definition bcompat :: "nat \<Rightarrow> nat \<Rightarrow> bool" where
  "bcompat m n = (m = n \<or> m = 1 \<or> n = 1)"

definition bdim :: "nat \<Rightarrow> nat \<Rightarrow> nat" where
  "bdim m n = (if m = 1 then n else m)"

definition bidx :: "nat \<Rightarrow> nat \<Rightarrow> nat" where
  "bidx m i = (if m = 1 then 0 else i)"

definition np_binop :: "(real \<Rightarrow> real \<Rightarrow> real) \<Rightarrow> ndarray2 \<Rightarrow> ndarray2 \<Rightarrow> error + ndarray2" where
  "np_binop f A B =
     (if bcompat (nrows A) (nrows B) \<and> bcompat (ncols A) (ncols B)
      then Inr (NDArray2 (bdim (ncols A) (ncols B))
             (map (\<lambda>i. map (\<lambda>j. f (rows A ! bidx (nrows A) i ! bidx (ncols A) j)
                                  (rows B ! bidx (nrows B) i ! bidx (ncols B) j))
                        [0..<bdim (ncols A) (ncols B)])
                  [0..<bdim (nrows A) (nrows B)]))
      else Inl BroadcastError)"

definition np_add :: "ndarray2 \<Rightarrow> ndarray2 \<Rightarrow> error + ndarray2" where
  "np_add = np_binop (\<lambda>x y. x + y)"

definition np_sub :: "ndarray2 \<Rightarrow> ndarray2 \<Rightarrow> error + ndarray2" where
  "np_sub = np_binop (\<lambda>x y. x - y)"

text \<open>A scalar times an array, and an array divided by a scalar.\<close>

definition np_scale :: "real \<Rightarrow> ndarray2 \<Rightarrow> ndarray2" where
  "np_scale c A = NDArray2 (ncols A) (map (map (\<lambda>x. c * x)) (rows A))"

definition np_div_scalar :: "ndarray2 \<Rightarrow> real \<Rightarrow> ndarray2" where
  "np_div_scalar A c = NDArray2 (ncols A) (map (map (\<lambda>x. x / c)) (rows A))"

section \<open>grid\_conv.py: the increment refiner\<close>

text \<open>
  \<^verbatim>\<open>double_increments\<close> returns a pair when \<^verbatim>\<open>U2s\<close> is \<^verbatim>\<open>None\<close> and a
  triple otherwise.
\<close>

datatype refined =
    Refined2 "real list" ndarray2
  | Refined3 "real list" ndarray2 ndarray2

definition double_increments :: "real list \<Rightarrow> ndarray2 \<Rightarrow> ndarray2 option \<Rightarrow> error + refined" where
  "double_increments tms U1s U2s =
     (let new_times = every_other tms;
          even_U1s = even_cols U1s;
          odd_U1s = odd_cols U1s
      in case np_add even_U1s odd_U1s of
           Inl e \<Rightarrow> Inl e
         | Inr sum_U1s \<Rightarrow>
             let new_U1s = np_div_scalar sum_U1s (sqrt 2)
             in (case U2s of
                   None \<Rightarrow> Inr (Refined2 new_times new_U1s)
                 | Some U2 \<Rightarrow>
                     let even_U2s = even_cols U2;
                         odd_U2s = odd_cols U2
                     in (case np_sub even_U1s odd_U1s of
                           Inl e \<Rightarrow> Inl e
                         | Inr diff_U1s \<Rightarrow>
                         (case np_add (np_scale (sqrt 3) diff_U1s) even_U2s of
                           Inl e \<Rightarrow> Inl e
                         | Inr acc \<Rightarrow>
                         (case np_add acc odd_U2s of
                           Inl e \<Rightarrow> Inl e
                         | Inr acc' \<Rightarrow>
                             Inr (Refined3 new_times new_U1s
                                    (np_div_scalar acc' (2 * sqrt 2))))))))"

text \<open>
  The refinement as the specification words it: every other time point, and the two closed
  formulas on consecutive pairs of samples of a row.
\<close>

definition spec_new_times :: "real list \<Rightarrow> real list" where
  "spec_new_times tms = map (\<lambda>k. tms ! (2 * k)) [0..<(length tms - 1) div 2 + 1]"

definition spec_new_U1_row :: "real list \<Rightarrow> real list" where
  "spec_new_U1_row u1 =
     map (\<lambda>n. (u1 ! (2 * n) + u1 ! (2 * n + 1)) / sqrt 2) [0..<length u1 div 2]"

definition spec_new_U2_row :: "real list \<Rightarrow> real list \<Rightarrow> real list" where
  "spec_new_U2_row u1 u2 =
     map (\<lambda>n. (sqrt 3 * (u1 ! (2 * n) - u1 ! (2 * n + 1)) + u2 ! (2 * n) + u2 ! (2 * n + 1))
               / (2 * sqrt 2))
         [0..<length u1 div 2]"

section \<open>sde.py: the integrators\<close>

text \<open>
  A state is a numpy vector of a fixed dimension, real or complex. It is a value of a real vector
  space \<open>'v\<close>: a coefficient callable returns a vector of the dimension of its argument by its
  type. \<open>r *\<^sub>R v\<close> is the vector \<open>v\<close> times the scalar \<open>r\<close>, and \<open>v /\<^sub>R r\<close> is \<open>v\<close>
  divided by \<open>r\<close>. A trajectory, whether the code builds it with \<^verbatim>\<open>np.vstack\<close> or as a Python
  list, is the list of its rows.

  A float that may be nan is a \<open>real option\<close>, \<open>None\<close> for nan: \<^verbatim>\<open>np.sqrt\<close> of a negative
  time increment is nan (with a warning, no exception), and every product with it is nan.
\<close>

definition np_sqrt :: "real list \<Rightarrow> real option list" where
  "np_sqrt xs = map (\<lambda>x. if 0 \<le> x then Some (sqrt x) else None) xs"

text \<open>Broadcasting of two one-dimensional arrays under an elementwise operation.\<close>

definition np_binop1 :: "('a \<Rightarrow> 'b \<Rightarrow> 'c) \<Rightarrow> 'a list \<Rightarrow> 'b list \<Rightarrow> error + 'c list" where
  "np_binop1 f xs ys =
     (if bcompat (length xs) (length ys)
      then Inr (map (\<lambda>i. f (xs ! bidx (length xs) i) (ys ! bidx (length ys) i))
                    [0..<bdim (length xs) (length ys)])
      else Inl BroadcastError)"

text \<open>
  \<^verbatim>\<open>np.product(np.array([sqrtdts, Us]), axis=0)\<close>: the two rows are stacked into one array and
  multiplied along the first axis. For rows of different lengths \<^verbatim>\<open>np.array\<close> has no
  rectangular array to build; what happens then depends on the version of numpy, and is the
  error \<open>RaggedError\<close> here.
\<close>

definition np_product2 :: "real option list \<Rightarrow> real list \<Rightarrow> error + real option list" where
  "np_product2 sqrtdts Us =
     (if length sqrtdts = length Us
      then Inr (map2 (\<lambda>s u. map_option (\<lambda>r. r * u) s) sqrtdts Us)
      else Inl RaggedError)"

text \<open>\<^verbatim>\<open>[tf - ti for tf, ti in zip(ts[1:], ts[:-1])]\<close>, and \<^verbatim>\<open>ts[1:] - ts[:-1]\<close>.\<close>

definition time_increments :: "real list \<Rightarrow> real list" where
  "time_increments ts = map (\<lambda>(tf, ti). tf - ti) (zip (tl ts) (butlast ts))"

text \<open>
  The loop shared by the integrators: \<^verbatim>\<open>for step in zip(...): X = np.vstack((X, row))\<close>, where
  \<^verbatim>\<open>row\<close> is computed from \<^verbatim>\<open>X[-1]\<close> and the step. The accumulator starts as \<open>[X0]\<close> and only
  grows, so \<^verbatim>\<open>X[-1]\<close> is always defined. A row that contains nan ends the real-valued run.
\<close>

fun integrate_loop :: "('v \<Rightarrow> 's \<Rightarrow> error + 'v) \<Rightarrow> 'v list \<Rightarrow> 's list \<Rightarrow> error + 'v list" where
  "integrate_loop row X [] = Inr X"
| "integrate_loop row X (s # steps) =
     (case row (last X) s of
        Inl e \<Rightarrow> Inl e
      | Inr x \<Rightarrow> integrate_loop row (X @ [x]) steps)"

text \<open>The right-hand sides of the four update rules, as the loop bodies write them.\<close>

definition euler_update ::
  "('v::real_vector \<Rightarrow> real \<Rightarrow> 'v) \<Rightarrow> ('v \<Rightarrow> real \<Rightarrow> 'v) \<Rightarrow> 'v \<Rightarrow> real \<Rightarrow> real \<Rightarrow> real \<Rightarrow> 'v" where
  "euler_update drift_fn diffusion_fn X t dt dW =
     X + dt *\<^sub>R drift_fn X t + dW *\<^sub>R diffusion_fn X t"

definition milstein_update ::
  "('v::real_vector \<Rightarrow> real \<Rightarrow> 'v) \<Rightarrow> ('v \<Rightarrow> real \<Rightarrow> 'v) \<Rightarrow> ('v \<Rightarrow> real \<Rightarrow> 'v) \<Rightarrow>
   'v \<Rightarrow> real \<Rightarrow> real \<Rightarrow> real \<Rightarrow> 'v" where
  "milstein_update drift diffusion b_dx_b X t dt dW =
     X + dt *\<^sub>R drift X t + dW *\<^sub>R diffusion X t + ((dW\<^sup>2 - dt) *\<^sub>R b_dx_b X t) /\<^sub>R 2"

definition faulty_milstein_update ::
  "('v::real_vector \<Rightarrow> real \<Rightarrow> 'v) \<Rightarrow> ('v \<Rightarrow> real \<Rightarrow> 'v) \<Rightarrow> ('v \<Rightarrow> real \<Rightarrow> 'v) \<Rightarrow>
   'v \<Rightarrow> real \<Rightarrow> real \<Rightarrow> real \<Rightarrow> 'v" where
  "faulty_milstein_update drift diffusion b_dx_b X t dt dW =
     X + dt *\<^sub>R drift X t + dW *\<^sub>R diffusion X t + (dW\<^sup>2 - dt) *\<^sub>R b_dx_b X t"

definition taylor_1_5_update ::
  "('v::real_vector \<Rightarrow> 'v) \<Rightarrow> ('v \<Rightarrow> 'v) \<Rightarrow> ('v \<Rightarrow> 'v) \<Rightarrow> ('v \<Rightarrow> 'v) \<Rightarrow> ('v \<Rightarrow> 'v) \<Rightarrow> ('v \<Rightarrow> 'v) \<Rightarrow>
   ('v \<Rightarrow> 'v) \<Rightarrow> ('v \<Rightarrow> 'v) \<Rightarrow> ('v \<Rightarrow> 'v) \<Rightarrow> 'v \<Rightarrow> real \<Rightarrow> real \<Rightarrow> real \<Rightarrow> 'v" where
  "taylor_1_5_update drift diffusion b_dx_b b_dx_a a_dx_b a_dx_a b_dx_b_dx_b b_b_dx_dx_b
     b_b_dx_dx_a X dt dW dZ =
     X + dt *\<^sub>R drift X + dW *\<^sub>R diffusion X +
     ((dW\<^sup>2 - dt) *\<^sub>R b_dx_b X) /\<^sub>R 2 + dZ *\<^sub>R b_dx_a X +
     (dW * dt - dZ) *\<^sub>R (a_dx_b X + b_b_dx_dx_b X /\<^sub>R 2) +
     (dt\<^sup>2 *\<^sub>R (a_dx_a X + b_b_dx_dx_a X /\<^sub>R 2)) /\<^sub>R 2 +
     (dW *\<^sub>R ((dW\<^sup>2 / 3 - dt) *\<^sub>R b_dx_b_dx_b X)) /\<^sub>R 2"

definition euler ::
  "('v::real_vector \<Rightarrow> real \<Rightarrow> 'v) \<Rightarrow> ('v \<Rightarrow> real \<Rightarrow> 'v) \<Rightarrow> 'v \<Rightarrow> real list \<Rightarrow> real list \<Rightarrow>
   error + 'v list" where
  "euler drift_fn diffusion_fn X0 ts Us =
     (let dts = time_increments ts;
          sqrtdts = np_sqrt dts
      in case np_product2 sqrtdts Us of
           Inl e \<Rightarrow> Inl e
         | Inr dWs \<Rightarrow>
             integrate_loop
               (\<lambda>X (t, dt, dW). case dW of
                    None \<Rightarrow> Inl NotReal
                  | Some w \<Rightarrow> Inr (euler_update drift_fn diffusion_fn X t dt w))
               [X0] (zip (butlast ts) (zip dts dWs)))"

definition meas_euler ::
  "('v::real_vector \<Rightarrow> real \<Rightarrow> 'v) \<Rightarrow> ('v \<Rightarrow> real \<Rightarrow> 'v) \<Rightarrow> ('m \<Rightarrow> real \<Rightarrow> 'v \<Rightarrow> real \<Rightarrow> real) \<Rightarrow>
   'v \<Rightarrow> real list \<Rightarrow> 'm list \<Rightarrow> error + 'v list" where
  "meas_euler drift_fn diffusion_fn dW_fn X0 ts dMs =
     (let dts = time_increments ts
      in integrate_loop
           (\<lambda>X (t, dt, dM). let dW = dW_fn dM dt X t
                             in Inr (euler_update drift_fn diffusion_fn X t dt dW))
           [X0] (zip (butlast ts) (zip dts dMs)))"

definition milstein ::
  "('v::real_vector \<Rightarrow> real \<Rightarrow> 'v) \<Rightarrow> ('v \<Rightarrow> real \<Rightarrow> 'v) \<Rightarrow> ('v \<Rightarrow> real \<Rightarrow> 'v) \<Rightarrow>
   'v \<Rightarrow> real list \<Rightarrow> real list \<Rightarrow> error + 'v list" where
  "milstein drift diffusion b_dx_b X0 ts Us =
     (let dts = time_increments ts;
          sqrtdts = np_sqrt dts
      in case np_product2 sqrtdts Us of
           Inl e \<Rightarrow> Inl e
         | Inr dWs \<Rightarrow>
             integrate_loop
               (\<lambda>X (t, dt, dW). case dW of
                    None \<Rightarrow> Inl NotReal
                  | Some w \<Rightarrow> Inr (milstein_update drift diffusion b_dx_b X t dt w))
               [X0] (zip (butlast ts) (zip dts dWs)))"

definition meas_milstein ::
  "('v::real_vector \<Rightarrow> real \<Rightarrow> 'v) \<Rightarrow> ('v \<Rightarrow> real \<Rightarrow> 'v) \<Rightarrow> ('v \<Rightarrow> real \<Rightarrow> 'v) \<Rightarrow>
   ('m \<Rightarrow> real \<Rightarrow> 'v \<Rightarrow> real \<Rightarrow> real) \<Rightarrow> 'v \<Rightarrow> real list \<Rightarrow> 'm list \<Rightarrow> error + 'v list" where
  "meas_milstein drift_fn diffusion_fn b_dx_b_fn dW_fn X0 ts dMs =
     (let dts = time_increments ts
      in integrate_loop
           (\<lambda>X (t, dt, dM). let dW = dW_fn dM dt X t
                             in Inr (milstein_update drift_fn diffusion_fn b_dx_b_fn X t dt dW))
           [X0] (zip (butlast ts) (zip dts dMs)))"

definition time_ind_taylor_1_5 ::
  "('v::real_vector \<Rightarrow> 'v) \<Rightarrow> ('v \<Rightarrow> 'v) \<Rightarrow> ('v \<Rightarrow> 'v) \<Rightarrow> ('v \<Rightarrow> 'v) \<Rightarrow> ('v \<Rightarrow> 'v) \<Rightarrow> ('v \<Rightarrow> 'v) \<Rightarrow>
   ('v \<Rightarrow> 'v) \<Rightarrow> ('v \<Rightarrow> 'v) \<Rightarrow> ('v \<Rightarrow> 'v) \<Rightarrow> 'v \<Rightarrow> real list \<Rightarrow> real list \<Rightarrow> real list \<Rightarrow>
   error + 'v list" where
  "time_ind_taylor_1_5 drift diffusion b_dx_b b_dx_a a_dx_b a_dx_a b_dx_b_dx_b b_b_dx_dx_b
     b_b_dx_dx_a X0 ts U1s U2s =
     (let dts = time_increments ts;
          sqrtdts = np_sqrt dts
      in case np_binop1 (\<lambda>u s. map_option (\<lambda>r. u * r) s) U1s sqrtdts of
           Inl e \<Rightarrow> Inl e
         | Inr dWs \<Rightarrow>
         (case np_binop1 (\<lambda>u1 u2. u1 + u2) U1s (map (\<lambda>u. u / sqrt 3) U2s) of
           Inl e \<Rightarrow> Inl e
         | Inr Usum \<Rightarrow>
         (case np_binop1 (\<lambda>u s. map_option (\<lambda>r. u * r) s) Usum sqrtdts of
           Inl e \<Rightarrow> Inl e
         | Inr Usqrt \<Rightarrow>
         (case np_binop1 (\<lambda>z dt. map_option (\<lambda>r. r * dt) z) Usqrt dts of
           Inl e \<Rightarrow> Inl e
         | Inr Uprod \<Rightarrow>
             let dZs = map (map_option (\<lambda>r. r / 2)) Uprod
             in integrate_loop
                  (\<lambda>X (t, dt, dW, dZ). case (dW, dZ) of
                       (Some w, Some z) \<Rightarrow>
                         Inr (taylor_1_5_update drift diffusion b_dx_b b_dx_a a_dx_b a_dx_a
                                b_dx_b_dx_b b_b_dx_dx_b b_b_dx_dx_a X dt w z)
                     | _ \<Rightarrow> Inl NotReal)
                  [X0] (zip (butlast ts) (zip dts (zip dWs dZs)))))))"

definition faulty_milstein ::
  "('v::real_vector \<Rightarrow> real \<Rightarrow> 'v) \<Rightarrow> ('v \<Rightarrow> real \<Rightarrow> 'v) \<Rightarrow> ('v \<Rightarrow> real \<Rightarrow> 'v) \<Rightarrow>
   'v \<Rightarrow> real list \<Rightarrow> real list \<Rightarrow> error + 'v list" where
  "faulty_milstein drift diffusion b_dx_b X0 ts Us =
     (let dts = time_increments ts;
          sqrtdts = np_sqrt dts
      in case np_product2 sqrtdts Us of
           Inl e \<Rightarrow> Inl e
         | Inr dWs \<Rightarrow>
             integrate_loop
               (\<lambda>X (t, dt, dW). case dW of
                    None \<Rightarrow> Inl NotReal
                  | Some w \<Rightarrow> Inr (faulty_milstein_update drift diffusion b_dx_b X t dt w))
               [X0] (zip (butlast ts) (zip dts dWs)))"

section \<open>sde.py: the integrators on a store of arrays\<close>

text \<open>
  To follow which array objects an integrator reads, creates and writes, the arrays live in a
  store: one-dimensional arrays (state vectors), two-dimensional arrays (their rows) and Python
  lists (of references to one-dimensional arrays), each kind under its references. The
  references below \<open>fresh\<close> are in use; a new object takes the reference \<open>fresh\<close>. The caller
  passes \<^verbatim>\<open>X0\<close> as a reference to a one-dimensional array.
\<close>

record 'v store =
  vecs :: "nat \<Rightarrow> 'v"
  mats :: "nat \<Rightarrow> 'v list"
  lists :: "nat \<Rightarrow> nat list"
  fresh :: nat

definition new_vec :: "'v store \<Rightarrow> 'v \<Rightarrow> nat \<times> 'v store" where
  "new_vec s x = (fresh s, s\<lparr>vecs := (vecs s)(fresh s := x), fresh := Suc (fresh s)\<rparr>)"

definition new_mat :: "'v store \<Rightarrow> 'v list \<Rightarrow> nat \<times> 'v store" where
  "new_mat s xs = (fresh s, s\<lparr>mats := (mats s)(fresh s := xs), fresh := Suc (fresh s)\<rparr>)"

definition new_list :: "'v store \<Rightarrow> nat list \<Rightarrow> nat \<times> 'v store" where
  "new_list s rs = (fresh s, s\<lparr>lists := (lists s)(fresh s := rs), fresh := Suc (fresh s)\<rparr>)"

text \<open>\<^verbatim>\<open>np.array(X0)\<close> and \<^verbatim>\<open>np.array([X0])\<close> copy the data of \<^verbatim>\<open>X0\<close> into a new array.\<close>

definition np_array_copy :: "'v store \<Rightarrow> nat \<Rightarrow> nat \<times> 'v store" where
  "np_array_copy s X0 = new_vec s (vecs s X0)"

definition np_array_rows :: "'v store \<Rightarrow> nat list \<Rightarrow> nat \<times> 'v store" where
  "np_array_rows s rs = new_mat s (map (vecs s) rs)"

text \<open>
  \<^verbatim>\<open>np.vstack((X, row))\<close> builds a new two-dimensional array from the rows of \<^verbatim>\<open>X\<close>, itself a
  two-dimensional array or a list of one-dimensional arrays, and the new row. \<^verbatim>\<open>X.append(row)\<close>
  writes into the list object \<^verbatim>\<open>X\<close>.
\<close>

definition np_vstack :: "'v store \<Rightarrow> nat \<Rightarrow> 'v \<Rightarrow> nat \<times> 'v store" where
  "np_vstack s X row = new_mat s (mats s X @ [row])"

definition np_vstack_list :: "'v store \<Rightarrow> nat \<Rightarrow> 'v \<Rightarrow> nat \<times> 'v store" where
  "np_vstack_list s Xs row = new_mat s (map (vecs s) (lists s Xs) @ [row])"

definition list_append :: "'v store \<Rightarrow> nat \<Rightarrow> nat \<Rightarrow> 'v store" where
  "list_append s X r = s\<lparr>lists := (lists s)(X := lists s X @ [r])\<rparr>"

text \<open>
  The loop \<^verbatim>\<open>X = np.vstack((X, row))\<close>, where \<^verbatim>\<open>row\<close> is computed from the view \<^verbatim>\<open>X[-1]\<close>, and
  the loop \<^verbatim>\<open>X.append(row)\<close> on a list, whose new row is a new array object.
\<close>

fun vstack_loop ::
  "('v \<Rightarrow> 's \<Rightarrow> error + 'v) \<Rightarrow> nat \<Rightarrow> 'v store \<Rightarrow> 's list \<Rightarrow> (error + nat) \<times> 'v store" where
  "vstack_loop row X s [] = (Inr X, s)"
| "vstack_loop row X s (st # steps) =
     (case row (last (mats s X)) st of
        Inl e \<Rightarrow> (Inl e, s)
      | Inr x \<Rightarrow> (case np_vstack s X x of (X', s') \<Rightarrow> vstack_loop row X' s' steps))"

fun append_loop ::
  "('v \<Rightarrow> 's \<Rightarrow> error + 'v) \<Rightarrow> nat \<Rightarrow> 'v store \<Rightarrow> 's list \<Rightarrow> (error + nat) \<times> 'v store" where
  "append_loop row X s [] = (Inr X, s)"
| "append_loop row X s (st # steps) =
     (case row (vecs s (last (lists s X))) st of
        Inl e \<Rightarrow> (Inl e, s)
      | Inr x \<Rightarrow> (case new_vec s x of (r, s') \<Rightarrow> append_loop row X (list_append s' X r) steps))"

text \<open>What an integrator returns: a two-dimensional array or a Python list of arrays.\<close>

datatype trajectory_ref = ArrayRef nat | ListRef nat

definition euler_on_store ::
  "('v::real_vector \<Rightarrow> real \<Rightarrow> 'v) \<Rightarrow> ('v \<Rightarrow> real \<Rightarrow> 'v) \<Rightarrow> nat \<Rightarrow> real list \<Rightarrow> real list \<Rightarrow>
   'v store \<Rightarrow> (error + trajectory_ref) \<times> 'v store" where
  "euler_on_store drift_fn diffusion_fn X0 ts Us s =
     (let dts = time_increments ts;
          sqrtdts = np_sqrt dts
      in case np_product2 sqrtdts Us of
           Inl e \<Rightarrow> (Inl e, s)
         | Inr dWs \<Rightarrow>
             (case np_array_rows s [X0] of (X, s1) \<Rightarrow>
             (case vstack_loop
                     (\<lambda>X (t, dt, dW). case dW of
                          None \<Rightarrow> Inl NotReal
                        | Some w \<Rightarrow> Inr (euler_update drift_fn diffusion_fn X t dt w))
                     X s1 (zip (butlast ts) (zip dts dWs)) of
                (r, s2) \<Rightarrow> (map_sum id ArrayRef r, s2))))"

definition meas_euler_on_store ::
  "('v::real_vector \<Rightarrow> real \<Rightarrow> 'v) \<Rightarrow> ('v \<Rightarrow> real \<Rightarrow> 'v) \<Rightarrow> ('m \<Rightarrow> real \<Rightarrow> 'v \<Rightarrow> real \<Rightarrow> real) \<Rightarrow>
   nat \<Rightarrow> real list \<Rightarrow> 'm list \<Rightarrow> 'v store \<Rightarrow> (error + trajectory_ref) \<times> 'v store" where
  "meas_euler_on_store drift_fn diffusion_fn dW_fn X0 ts dMs s =
     (let dts = time_increments ts
      in case np_array_rows s [X0] of (X, s1) \<Rightarrow>
         (case vstack_loop
                 (\<lambda>X (t, dt, dM). let dW = dW_fn dM dt X t
                                   in Inr (euler_update drift_fn diffusion_fn X t dt dW))
                 X s1 (zip (butlast ts) (zip dts dMs)) of
            (r, s2) \<Rightarrow> (map_sum id ArrayRef r, s2)))"

definition milstein_on_store ::
  "('v::real_vector \<Rightarrow> real \<Rightarrow> 'v) \<Rightarrow> ('v \<Rightarrow> real \<Rightarrow> 'v) \<Rightarrow> ('v \<Rightarrow> real \<Rightarrow> 'v) \<Rightarrow>
   nat \<Rightarrow> real list \<Rightarrow> real list \<Rightarrow> 'v store \<Rightarrow> (error + trajectory_ref) \<times> 'v store" where
  "milstein_on_store drift diffusion b_dx_b X0 ts Us s =
     (let dts = time_increments ts;
          sqrtdts = np_sqrt dts
      in case np_product2 sqrtdts Us of
           Inl e \<Rightarrow> (Inl e, s)
         | Inr dWs \<Rightarrow>
             (case np_array_rows s [X0] of (X, s1) \<Rightarrow>
             (case vstack_loop
                     (\<lambda>X (t, dt, dW). case dW of
                          None \<Rightarrow> Inl NotReal
                        | Some w \<Rightarrow> Inr (milstein_update drift diffusion b_dx_b X t dt w))
                     X s1 (zip (butlast ts) (zip dts dWs)) of
                (r, s2) \<Rightarrow> (map_sum id ArrayRef r, s2))))"

definition meas_milstein_on_store ::
  "('v::real_vector \<Rightarrow> real \<Rightarrow> 'v) \<Rightarrow> ('v \<Rightarrow> real \<Rightarrow> 'v) \<Rightarrow> ('v \<Rightarrow> real \<Rightarrow> 'v) \<Rightarrow>
   ('m \<Rightarrow> real \<Rightarrow> 'v \<Rightarrow> real \<Rightarrow> real) \<Rightarrow> nat \<Rightarrow> real list \<Rightarrow> 'm list \<Rightarrow> 'v store \<Rightarrow>
   (error + trajectory_ref) \<times> 'v store" where
  "meas_milstein_on_store drift_fn diffusion_fn b_dx_b_fn dW_fn X0 ts dMs s =
     (let dts = time_increments ts
      in case np_array_rows s [X0] of (X, s1) \<Rightarrow>
         (case vstack_loop
                 (\<lambda>X (t, dt, dM). let dW = dW_fn dM dt X t
                                   in Inr (milstein_update drift_fn diffusion_fn b_dx_b_fn X t dt dW))
                 X s1 (zip (butlast ts) (zip dts dMs)) of
            (r, s2) \<Rightarrow> (map_sum id ArrayRef r, s2)))"

text \<open>
  \<open>time_ind_taylor_1_5\<close> starts from the list \<^verbatim>\<open>[np.array(X0)]\<close>; the first \<^verbatim>\<open>np.vstack\<close>
  replaces it by a two-dimensional array. With no step the list itself is returned.
\<close>

definition time_ind_taylor_1_5_on_store ::
  "('v::real_vector \<Rightarrow> 'v) \<Rightarrow> ('v \<Rightarrow> 'v) \<Rightarrow> ('v \<Rightarrow> 'v) \<Rightarrow> ('v \<Rightarrow> 'v) \<Rightarrow> ('v \<Rightarrow> 'v) \<Rightarrow> ('v \<Rightarrow> 'v) \<Rightarrow>
   ('v \<Rightarrow> 'v) \<Rightarrow> ('v \<Rightarrow> 'v) \<Rightarrow> ('v \<Rightarrow> 'v) \<Rightarrow> nat \<Rightarrow> real list \<Rightarrow> real list \<Rightarrow> real list \<Rightarrow>
   'v store \<Rightarrow> (error + trajectory_ref) \<times> 'v store" where
  "time_ind_taylor_1_5_on_store drift diffusion b_dx_b b_dx_a a_dx_b a_dx_a b_dx_b_dx_b
     b_b_dx_dx_b b_b_dx_dx_a X0 ts U1s U2s s =
     (let dts = time_increments ts;
          sqrtdts = np_sqrt dts
      in case np_binop1 (\<lambda>u s. map_option (\<lambda>r. u * r) s) U1s sqrtdts of
           Inl e \<Rightarrow> (Inl e, s)
         | Inr dWs \<Rightarrow>
         (case np_binop1 (\<lambda>u1 u2. u1 + u2) U1s (map (\<lambda>u. u / sqrt 3) U2s) of
           Inl e \<Rightarrow> (Inl e, s)
         | Inr Usum \<Rightarrow>
         (case np_binop1 (\<lambda>u s. map_option (\<lambda>r. u * r) s) Usum sqrtdts of
           Inl e \<Rightarrow> (Inl e, s)
         | Inr Usqrt \<Rightarrow>
         (case np_binop1 (\<lambda>z dt. map_option (\<lambda>r. r * dt) z) Usqrt dts of
           Inl e \<Rightarrow> (Inl e, s)
         | Inr Uprod \<Rightarrow>
             let dZs = map (map_option (\<lambda>r. r / 2)) Uprod;
                 row = (\<lambda>X (t, dt, dW, dZ). case (dW, dZ) of
                          (Some w, Some z) \<Rightarrow>
                            Inr (taylor_1_5_update drift diffusion b_dx_b b_dx_a a_dx_b a_dx_a
                                   b_dx_b_dx_b b_b_dx_dx_b b_b_dx_dx_a X dt w z)
                        | _ \<Rightarrow> Inl NotReal)
             in (case np_array_copy s X0 of (r0, s1) \<Rightarrow>
                (case new_list s1 [r0] of (Xs, s2) \<Rightarrow>
                (case zip (butlast ts) (zip dts (zip dWs dZs)) of
                   [] \<Rightarrow> (Inr (ListRef Xs), s2)
                 | st # steps \<Rightarrow>
                     (case row (vecs s2 (last (lists s2 Xs))) st of
                        Inl e \<Rightarrow> (Inl e, s2)
                      | Inr x \<Rightarrow>
                          (case np_vstack_list s2 Xs x of (X, s3) \<Rightarrow>
                          (case vstack_loop row X s3 steps of
                             (r, s4) \<Rightarrow> (map_sum id ArrayRef r, s4)))))))))))"

definition faulty_milstein_on_store ::
  "('v::real_vector \<Rightarrow> real \<Rightarrow> 'v) \<Rightarrow> ('v \<Rightarrow> real \<Rightarrow> 'v) \<Rightarrow> ('v \<Rightarrow> real \<Rightarrow> 'v) \<Rightarrow>
   nat \<Rightarrow> real list \<Rightarrow> real list \<Rightarrow> 'v store \<Rightarrow> (error + trajectory_ref) \<times> 'v store" where
  "faulty_milstein_on_store drift diffusion b_dx_b X0 ts Us s =
     (let dts = time_increments ts;
          sqrtdts = np_sqrt dts
      in case np_product2 sqrtdts Us of
           Inl e \<Rightarrow> (Inl e, s)
         | Inr dWs \<Rightarrow>
             (case np_array_copy s X0 of (r0, s1) \<Rightarrow>
             (case new_list s1 [r0] of (X, s2) \<Rightarrow>
             (case append_loop
                     (\<lambda>X (t, dt, dW). case dW of
                          None \<Rightarrow> Inl NotReal
                        | Some w \<Rightarrow> Inr (faulty_milstein_update drift diffusion b_dx_b X t dt w))
                     X s2 (zip (butlast ts) (zip dts dWs)) of
                (r, s3) \<Rightarrow> (map_sum id ListRef r, s3)))))"

text \<open>
  The rows of the trajectory behind a reference, and the objects an observer of the result can
  reach and write: the array itself, or the list and the arrays it refers to.
\<close>

definition trajectory_rows :: "'v store \<Rightarrow> trajectory_ref \<Rightarrow> 'v list" where
  "trajectory_rows s T = (case T of ArrayRef X \<Rightarrow> mats s X
                                  | ListRef X \<Rightarrow> map (vecs s) (lists s X))"

definition reachable_refs :: "'v store \<Rightarrow> trajectory_ref \<Rightarrow> nat list" where
  "reachable_refs s T = (case T of ArrayRef X \<Rightarrow> [X] | ListRef X \<Rightarrow> X # lists s X)"

text \<open>The objects that existed in the store \<open>s\<close> are the same in \<open>s'\<close>.\<close>

definition preserved :: "'v store \<Rightarrow> 'v store \<Rightarrow> bool" where
  "preserved s s' =
     (fresh s \<le> fresh s' \<and>
      (\<forall>r<fresh s. vecs s' r = vecs s r \<and> mats s' r = mats s r \<and> lists s' r = lists s r))"

text \<open>
  The outcome of a run started in the store \<open>s\<close> leaves the caller's array \<open>X0\<close> alone: the array
  holds what it held, every object of \<open>s\<close> is as it was, the returned trajectory is not and does
  not contain the object \<open>X0\<close>, and writing any value into an array reachable from the result
  does not change \<open>X0\<close>.
\<close>

definition leaves_alone :: "'v store \<Rightarrow> nat \<Rightarrow> (error + trajectory_ref) \<times> 'v store \<Rightarrow> bool" where
  "leaves_alone s X0 outcome =
     (case outcome of (res, s') \<Rightarrow>
        vecs s' X0 = vecs s X0 \<and> preserved s s' \<and>
        (\<forall>T. res = Inr T \<longrightarrow>
           X0 \<notin> set (reachable_refs s' T) \<and>
           (\<forall>q\<in>set (reachable_refs s' T). \<forall>v.
              vecs (s'\<lparr>vecs := (vecs s')(q := v)\<rparr>) X0 = vecs s X0)))"

text \<open>The rows of the trajectory a run returns, or its error.\<close>

definition returned_rows :: "(error + trajectory_ref) \<times> 'v store \<Rightarrow> error + 'v list" where
  "returned_rows outcome = (case outcome of (res, s') \<Rightarrow> map_sum id (trajectory_rows s') res)"

definition example_store :: "real store" where
  "example_store = \<lparr>vecs = (\<lambda>r. 1), mats = (\<lambda>r. []), lists = (\<lambda>r. []), fresh = 1\<rparr>"

section \<open>Python objects and references\<close>

text \<open>
  Dictionaries, lists and arrays are objects reached through references. A heap maps a reference
  (a number) to the object it holds; the references below \<open>nxt\<close> are the allocated ones, and a
  new object takes the reference \<open>nxt\<close>. Mutating an object changes what every holder of its
  reference sees.
\<close>

record 'o heap =
  objs :: "nat \<Rightarrow> 'o"
  nxt :: nat

definition alloc :: "'o heap \<Rightarrow> 'o \<Rightarrow> nat \<times> 'o heap" where
  "alloc h obj = (nxt h, h\<lparr>objs := (objs h)(nxt h := obj), nxt := Suc (nxt h)\<rparr>)"

definition store :: "'o heap \<Rightarrow> nat \<Rightarrow> 'o \<Rightarrow> 'o heap" where
  "store h r obj = h\<lparr>objs := (objs h)(r := obj)\<rparr>"

text \<open>\<^verbatim>\<open>xs[-1]\<close> on a sequence that may be empty.\<close>

definition py_last :: "'a list \<Rightarrow> error + 'a" where
  "py_last xs = (case xs of [] \<Rightarrow> Inl IndexError | _ \<Rightarrow> Inr (last xs))"

section \<open>grid\_conv.py: the convergence-rate driver\<close>

text \<open>
  A keyword dictionary maps a parameter name to a one-dimensional array or to a value the driver
  never looks into (a coefficient callable, the initial state).
\<close>

datatype 'c pyval = Arr "real list" | Opaque 'c

type_synonym 'c dict = "string \<rightharpoonup> 'c pyval"

text \<open>\<^verbatim>\<open>d.copy()\<close> allocates a dictionary with the entries of \<open>d\<close>; \<^verbatim>\<open>d.update(e)\<close> writes
  the entries of \<open>e\<close> into the object \<open>d\<close> itself.\<close>

definition dict_copy :: "'c dict heap \<Rightarrow> nat \<Rightarrow> nat \<times> 'c dict heap" where
  "dict_copy h d = alloc h (objs h d)"

definition dict_update :: "'c dict heap \<Rightarrow> nat \<Rightarrow> 'c dict \<Rightarrow> 'c dict heap" where
  "dict_update h d e = store h d (objs h d ++ e)"

definition l1_norm :: "real list \<Rightarrow> real" where
  "l1_norm vec = sum_list (map abs vec)"

text \<open>\<^verbatim>\<open>np.log\<close>: minus infinity at 0 and nan below, both outside the reals.\<close>

definition np_log :: "real \<Rightarrow> real option" where
  "np_log x = (if 0 < x then Some (ln x) else None)"

text \<open>
  \<^verbatim>\<open>integrator_fn(**keyword_args)\<close> reads the entries of the dictionary and returns a
  trajectory, a sequence of state vectors, or raises.
\<close>

definition homodyne_strong_calc_rate ::
  "('c dict \<Rightarrow> error + real list list) \<Rightarrow> nat \<Rightarrow> real list \<Rightarrow> real list \<Rightarrow> real list \<Rightarrow>
   real list \<Rightarrow> real list \<Rightarrow> real list \<Rightarrow> real list \<Rightarrow> real list \<Rightarrow> real list \<Rightarrow>
   'c dict heap \<Rightarrow> (error + real) \<times> 'c dict heap" where
  "homodyne_strong_calc_rate integrator_fn keyword_args tms U1s U2s times_2 U1s_2 U2s_2
     times_4 U1s_4 U2s_4 h =
     (let (keyword_args_2, h1) = dict_copy h keyword_args;
          (keyword_args_4, h2) = dict_copy h1 keyword_args;
          h3 = dict_update h2 keyword_args
                 [''ts'' \<mapsto> Arr tms, ''U1s'' \<mapsto> Arr U1s, ''U2s'' \<mapsto> Arr U2s];
          h4 = dict_update h3 keyword_args_2
                 [''ts'' \<mapsto> Arr times_2, ''U1s'' \<mapsto> Arr U1s_2, ''U2s'' \<mapsto> Arr U2s_2];
          h5 = dict_update h4 keyword_args_4
                 [''ts'' \<mapsto> Arr times_4, ''U1s'' \<mapsto> Arr U1s_4, ''U2s'' \<mapsto> Arr U2s_4]
      in (case integrator_fn (objs h5 keyword_args) of
            Inl e \<Rightarrow> Inl e
          | Inr rhos \<Rightarrow>
          (case integrator_fn (objs h5 keyword_args_2) of
            Inl e \<Rightarrow> Inl e
          | Inr rhos_2 \<Rightarrow>
          (case integrator_fn (objs h5 keyword_args_4) of
            Inl e \<Rightarrow> Inl e
          | Inr rhos_4 \<Rightarrow>
          (case py_last rhos_4 of Inl e \<Rightarrow> Inl e | Inr end_4 \<Rightarrow>
          (case py_last rhos_2 of Inl e \<Rightarrow> Inl e | Inr end_2 \<Rightarrow>
          (case np_binop1 (\<lambda>x y. x - y) end_4 end_2 of Inl e \<Rightarrow> Inl e | Inr diff_42 \<Rightarrow>
          (case py_last rhos of Inl e \<Rightarrow> Inl e | Inr end_1 \<Rightarrow>
          (case np_binop1 (\<lambda>x y. x - y) end_2 end_1 of Inl e \<Rightarrow> Inl e | Inr diff_21 \<Rightarrow>
          (case (np_log (l1_norm diff_42), np_log (l1_norm diff_21)) of
             (Some log_42, Some log_21) \<Rightarrow> Inr ((log_42 - log_21) / ln 2)
           | _ \<Rightarrow> Inl NotReal)))))))),
          h5))"

text \<open>
  One entry of \<^verbatim>\<open>meta_kwargs\<close>: a dictionary with a fixed set of keys. Its
  \<^verbatim>\<open>'keyword_args'\<close> entry is a reference to a dictionary object.
\<close>

record 'f work_item =
  wi_integrator_fn :: 'f
  wi_keyword_args :: nat
  wi_times :: "real list"
  wi_U1s :: "real list"
  wi_U2s :: "real list"
  wi_times_2 :: "real list"
  wi_U1s_2 :: "real list"
  wi_U2s_2 :: "real list"
  wi_times_4 :: "real list"
  wi_U1s_4 :: "real list"
  wi_U2s_4 :: "real list"

text \<open>
  \<^verbatim>\<open>np.random.randn(rows, cols)\<close>: the samples come from the parameter \<open>randn\<close>, which maps the
  number of the draw in this call of the driver and the shape asked for to the array drawn.
  A negative extent is refused.
\<close>

definition np_random_randn ::
  "(nat \<Rightarrow> nat \<Rightarrow> nat \<Rightarrow> ndarray2) \<Rightarrow> nat \<Rightarrow> nat \<Rightarrow> int \<Rightarrow> error + ndarray2" where
  "np_random_randn randn k n m = (if m < 0 then Inl DimensionError else Inr (randn k n (nat m)))"

text \<open>
  \<^verbatim>\<open>prep_homodyne_gauss_1_5\<close> comes from \<^verbatim>\<open>pysme.integrate\<close>, which is not among the sources: it
  is a parameter, a function of the six model arguments (one value \<open>model\<close> here) that returns the
  entries of a new keyword dictionary. The arguments \<^verbatim>\<open>prep_fn\<close> and \<^verbatim>\<open>integrator_fn\<close> are
  values the driver does not call.
\<close>

definition homodyne_strong_grid_convergence ::
  "('model \<Rightarrow> 'c dict) \<Rightarrow> (nat \<Rightarrow> nat \<Rightarrow> nat \<Rightarrow> ndarray2) \<Rightarrow> 'model \<Rightarrow> 'p \<Rightarrow> 'f \<Rightarrow> real list \<Rightarrow>
   ndarray2 option \<Rightarrow> ndarray2 option \<Rightarrow> nat \<Rightarrow> 'c dict heap \<Rightarrow>
   (error + 'f work_item list) \<times> 'c dict heap" where
  "homodyne_strong_grid_convergence prep_homodyne_gauss_1_5 randn model prep_fn integrator_fn
     tms U1s_opt U2s_opt trajectories h =
     (let (keyword_args, h1) = alloc h (prep_homodyne_gauss_1_5 model);
          increments = int (length tms) - 1
      in (case (case U1s_opt of None \<Rightarrow> np_random_randn randn 0 trajectories increments
                              | Some U \<Rightarrow> Inr U) of
            Inl e \<Rightarrow> Inl e
          | Inr U1s \<Rightarrow>
          (case (case U2s_opt of
                   None \<Rightarrow> np_random_randn randn (case U1s_opt of None \<Rightarrow> 1 | Some U \<Rightarrow> 0)
                             trajectories increments
                 | Some U \<Rightarrow> Inr U) of
            Inl e \<Rightarrow> Inl e
          | Inr U2s \<Rightarrow>
          (case double_increments tms U1s (Some U2s) of
            Inl e \<Rightarrow> Inl e
          | Inr (Refined2 times_2 U1s_2) \<Rightarrow> Inl UnpackError
          | Inr (Refined3 times_2 U1s_2 U2s_2) \<Rightarrow>
          (case double_increments times_2 U1s_2 (Some U2s_2) of
            Inl e \<Rightarrow> Inl e
          | Inr (Refined2 times_4 U1s_4) \<Rightarrow> Inl UnpackError
          | Inr (Refined3 times_4 U1s_4 U2s_4) \<Rightarrow>
              Inr (map (\<lambda>(U1, U2, U1_2, U2_2, U1_4, U2_4).
                         \<lparr>wi_integrator_fn = integrator_fn, wi_keyword_args = keyword_args,
                          wi_times = tms, wi_U1s = U1, wi_U2s = U2,
                          wi_times_2 = times_2, wi_U1s_2 = U1_2, wi_U2s_2 = U2_2,
                          wi_times_4 = times_4, wi_U1s_4 = U1_4, wi_U2s_4 = U2_4\<rparr>)
                       (zip (rows U1s) (zip (rows U2s) (zip (rows U1s_2) (zip (rows U2s_2)
                          (zip (rows U1s_4) (rows U2s_4)))))))))),
          h1))"

subsection \<open>Coefficient callables for the worked examples\<close>

text \<open>One-dimensional states: a zero, a constant and a linear coefficient, with and without time.\<close>

definition zero_coef :: "real \<Rightarrow> real \<Rightarrow> real" where
  "zero_coef X t = 0"

definition unit_coef :: "real \<Rightarrow> real \<Rightarrow> real" where
  "unit_coef X t = 1"

definition linear_coef :: "real \<Rightarrow> real \<Rightarrow> real" where
  "linear_coef X t = X"

definition zero_coef_ti :: "real \<Rightarrow> real" where
  "zero_coef_ti X = 0"

definition unit_coef_ti :: "real \<Rightarrow> real" where
  "unit_coef_ti X = 1"

definition linear_coef_ti :: "real \<Rightarrow> real" where
  "linear_coef_ti X = X"

text \<open>A measurement record that is the Wiener increment itself.\<close>

definition direct_dW :: "real \<Rightarrow> real \<Rightarrow> real \<Rightarrow> real \<Rightarrow> real" where
  "direct_dW dM dt X t = dM"

text \<open>
  An integrator callable for the worked examples: it takes \<^verbatim>\<open>ts\<close> and \<^verbatim>\<open>U1s\<close> from its keyword
  arguments and runs \<open>euler\<close> on the driftless equation \<open>dX = X dW\<close> from \<open>X = 1\<close>; the states
  are vectors of dimension one.
\<close>

definition example_integrator_fn :: "unit dict \<Rightarrow> error + real list list" where
  "example_integrator_fn kw =
     (case (kw ''ts'', kw ''U1s'') of
        (Some (Arr ts), Some (Arr U1s)) \<Rightarrow>
          (case euler zero_coef linear_coef 1 ts U1s of
             Inl e \<Rightarrow> Inl e
           | Inr X \<Rightarrow> Inr (map (\<lambda>x. [x]) X))
      | _ \<Rightarrow> Inl IntegratorError)"

definition example_heap :: "unit dict heap" where
  "example_heap = \<lparr>objs = (\<lambda>r. Map.empty), nxt = 1\<rparr>"

text \<open>A model preparation that returns an empty keyword dictionary, and a sample source that
  draws zeros.\<close>

definition example_prep :: "unit \<Rightarrow> unit dict" where
  "example_prep model = Map.empty"

definition example_randn :: "nat \<Rightarrow> nat \<Rightarrow> nat \<Rightarrow> ndarray2" where
  "example_randn k n m = NDArray2 m (replicate n (replicate m 0))"

section \<open>Properties of the increment refiner\<close>

lemma length_every_other: "length (every_other xs) = (length xs + 1) div 2"
  by (induction xs rule: every_other.induct) simp_all

lemma nth_every_other: "k < (length xs + 1) div 2 \<Longrightarrow> every_other xs ! k = xs ! (2 * k)"
proof (induction xs arbitrary: k rule: every_other.induct)
  case (3 x y xs)
  then show ?case by (cases k) simp_all
qed simp_all

lemma every_other_spec_times:
  assumes "tms \<noteq> []"
  shows "every_other tms = spec_new_times tms"
proof -
  from assms have len: "(length tms + 1) div 2 = (length tms - 1) div 2 + 1"
    by (cases tms) simp_all
  show ?thesis
    unfolding spec_new_times_def
  proof (rule nth_equalityI)
    show "length (every_other tms) = length (map (\<lambda>k. tms ! (2 * k)) [0..<(length tms - 1) div 2 + 1])"
      using len by (simp add: length_every_other)
  next
    fix i assume "i < length (every_other tms)"
    then have i: "i < (length tms + 1) div 2" by (simp add: length_every_other)
    then have "i < (length tms - 1) div 2 + 1" using len by simp
    then have "map (\<lambda>k. tms ! (2 * k)) [0..<(length tms - 1) div 2 + 1] ! i = tms ! (2 * i)"
      by (simp only: nth_map_upt minus_nat.diff_0 add_0)
    with i show "every_other tms ! i = map (\<lambda>k. tms ! (2 * k)) [0..<(length tms - 1) div 2 + 1] ! i"
      by (simp only: nth_every_other)
  qed
qed

lemma np_binop_same_shape:
  assumes "nrows A = nrows B" "ncols A = ncols B"
  shows "np_binop f A B = Inr (NDArray2 (ncols A)
           (map (\<lambda>i. map (\<lambda>j. f (rows A ! i ! j) (rows B ! i ! j)) [0..<ncols A]) [0..<nrows A]))"
  using assms by (auto simp: np_binop_def bcompat_def bdim_def bidx_def)

lemma refine_U1_row:
  assumes "even (length u1)"
  shows "map (\<lambda>x. x / sqrt 2)
           (map (\<lambda>j. every_other u1 ! j + every_other (tl u1) ! j) [0..<length u1 div 2])
         = spec_new_U1_row u1"
  unfolding spec_new_U1_row_def using assms
  by (auto simp: nth_every_other nth_tl elim!: evenE)

lemma refine_U2_row:
  assumes "even (length u1)" "length u2 = length u1"
  shows "map (\<lambda>x. x / (2 * sqrt 2))
           (map (\<lambda>j. sqrt 3 * (every_other u1 ! j - every_other (tl u1) ! j)
                        + every_other u2 ! j + every_other (tl u2) ! j) [0..<length u1 div 2])
         = spec_new_U2_row u1 u2"
  unfolding spec_new_U2_row_def using assms
  by (auto simp: nth_every_other nth_tl elim!: evenE)

lemma wf_array_nth: "wf_array A \<Longrightarrow> i < nrows A \<Longrightarrow> length (rows A ! i) = ncols A"
  by (simp add: wf_array_def nrows_def list_all_length)

lemma refine_U1_rows:
  assumes wf: "wf_array U1s" and ev: "even (ncols U1s)"
  shows "map (map (\<lambda>x. x / sqrt 2))
           (map (\<lambda>i. map (\<lambda>j. rows (even_cols U1s) ! i ! j + rows (odd_cols U1s) ! i ! j)
                          [0..<ncols U1s div 2]) [0..<nrows U1s])
         = map spec_new_U1_row (rows U1s)"
proof (rule nth_equalityI)
  show "length (map (map (\<lambda>x. x / sqrt 2))
           (map (\<lambda>i. map (\<lambda>j. rows (even_cols U1s) ! i ! j + rows (odd_cols U1s) ! i ! j)
                          [0..<ncols U1s div 2]) [0..<nrows U1s]))
        = length (map spec_new_U1_row (rows U1s))"
    by (simp add: nrows_def)
next
  fix i
  assume "i < length (map (map (\<lambda>x. x / sqrt 2))
           (map (\<lambda>i. map (\<lambda>j. rows (even_cols U1s) ! i ! j + rows (odd_cols U1s) ! i ! j)
                          [0..<ncols U1s div 2]) [0..<nrows U1s]))"
  then have i: "i < nrows U1s" by simp
  then have len: "length (rows U1s ! i) = ncols U1s" using wf by (rule wf_array_nth[rotated])
  have "map (\<lambda>x. x / sqrt 2)
          (map (\<lambda>j. every_other (rows U1s ! i) ! j + every_other (tl (rows U1s ! i)) ! j)
               [0..<length (rows U1s ! i) div 2])
        = spec_new_U1_row (rows U1s ! i)"
    using ev len by (intro refine_U1_row) simp
  then show "map (map (\<lambda>x. x / sqrt 2))
           (map (\<lambda>i. map (\<lambda>j. rows (even_cols U1s) ! i ! j + rows (odd_cols U1s) ! i ! j)
                          [0..<ncols U1s div 2]) [0..<nrows U1s]) ! i
        = map spec_new_U1_row (rows U1s) ! i"
    using i len by (simp add: even_cols_def odd_cols_def nrows_def)
qed

lemma refine_U2_rows:
  assumes wf: "wf_array U1s" "wf_array U2s" and ev: "even (ncols U1s)"
    and sh: "ncols U2s = ncols U1s" "nrows U2s = nrows U1s"
  shows "map (map (\<lambda>x. x / (2 * sqrt 2)))
           (map (\<lambda>i. map (\<lambda>j. sqrt 3 * (rows (even_cols U1s) ! i ! j - rows (odd_cols U1s) ! i ! j)
                                 + rows (even_cols U2s) ! i ! j + rows (odd_cols U2s) ! i ! j)
                          [0..<ncols U1s div 2]) [0..<nrows U1s])
         = map2 spec_new_U2_row (rows U1s) (rows U2s)"
proof (rule nth_equalityI)
  show "length (map (map (\<lambda>x. x / (2 * sqrt 2)))
           (map (\<lambda>i. map (\<lambda>j. sqrt 3 * (rows (even_cols U1s) ! i ! j - rows (odd_cols U1s) ! i ! j)
                                 + rows (even_cols U2s) ! i ! j + rows (odd_cols U2s) ! i ! j)
                          [0..<ncols U1s div 2]) [0..<nrows U1s]))
        = length (map2 spec_new_U2_row (rows U1s) (rows U2s))"
    using sh by (simp add: nrows_def)
next
  fix i
  assume "i < length (map (map (\<lambda>x. x / (2 * sqrt 2)))
           (map (\<lambda>i. map (\<lambda>j. sqrt 3 * (rows (even_cols U1s) ! i ! j - rows (odd_cols U1s) ! i ! j)
                                 + rows (even_cols U2s) ! i ! j + rows (odd_cols U2s) ! i ! j)
                          [0..<ncols U1s div 2]) [0..<nrows U1s]))"
  then have i: "i < nrows U1s" by simp
  then have i2: "i < nrows U2s" using sh by simp
  have len: "length (rows U1s ! i) = ncols U1s" using wf(1) i by (rule wf_array_nth)
  have len2: "length (rows U2s ! i) = length (rows U1s ! i)"
    using wf_array_nth[OF wf(2) i2] len sh by simp
  have "map (\<lambda>x. x / (2 * sqrt 2))
           (map (\<lambda>j. sqrt 3 * (every_other (rows U1s ! i) ! j - every_other (tl (rows U1s ! i)) ! j)
                        + every_other (rows U2s ! i) ! j + every_other (tl (rows U2s ! i)) ! j)
                [0..<length (rows U1s ! i) div 2])
         = spec_new_U2_row (rows U1s ! i) (rows U2s ! i)"
    using ev len len2 by (intro refine_U2_row) simp_all
  then show "map (map (\<lambda>x. x / (2 * sqrt 2)))
           (map (\<lambda>i. map (\<lambda>j. sqrt 3 * (rows (even_cols U1s) ! i ! j - rows (odd_cols U1s) ! i ! j)
                                 + rows (even_cols U2s) ! i ! j + rows (odd_cols U2s) ! i ! j)
                          [0..<ncols U1s div 2]) [0..<nrows U1s]) ! i
        = map2 spec_new_U2_row (rows U1s) (rows U2s) ! i"
    using i i2 len by (simp add: even_cols_def odd_cols_def nrows_def)
qed

lemma even_odd_cols_shape:
  "even (ncols A) \<Longrightarrow> ncols (even_cols A) = ncols A div 2"
  "ncols (odd_cols A) = ncols A div 2"
  "nrows (even_cols A) = nrows A" "nrows (odd_cols A) = nrows A"
  by (auto simp: even_cols_def odd_cols_def nrows_def elim!: evenE)

lemma np_binop_shape:
  assumes "nrows A = n" "nrows B = n" "ncols A = c" "ncols B = c"
  shows "np_binop f A B =
         Inr (NDArray2 c (map (\<lambda>i. map (\<lambda>j. f (rows A ! i ! j) (rows B ! i ! j)) [0..<c]) [0..<n]))"
  using assms np_binop_same_shape[of A B f] by simp

lemma double_increments_Some:
  assumes wf: "wf_array U1s" and ev: "even (ncols U1s)" and ne: "tms \<noteq> []"
    and wf2: "wf_array U2s" and sh: "ncols U2s = ncols U1s" "nrows U2s = nrows U1s"
  shows "double_increments tms U1s (Some U2s) =
         Inr (Refined3 (spec_new_times tms) (NDArray2 (ncols U1s div 2) (map spec_new_U1_row (rows U1s)))
                (NDArray2 (ncols U1s div 2) (map2 spec_new_U2_row (rows U1s) (rows U2s))))"
proof -
  define c where "c = ncols U1s div 2"
  define n where "n = nrows U1s"
  define D where "D = NDArray2 c (map (\<lambda>i. map (\<lambda>j. rows (even_cols U1s) ! i ! j - rows (odd_cols U1s) ! i ! j)
                                   [0..<c]) [0..<n])"
  define E where "E = NDArray2 c (map (\<lambda>i. map (\<lambda>j. sqrt 3 * (rows (even_cols U1s) ! i ! j - rows (odd_cols U1s) ! i ! j)
                                   + rows (even_cols U2s) ! i ! j) [0..<c]) [0..<n])"
  define F where "F = NDArray2 c (map (\<lambda>i. map (\<lambda>j. sqrt 3 * (rows (even_cols U1s) ! i ! j - rows (odd_cols U1s) ! i ! j)
                                   + rows (even_cols U2s) ! i ! j + rows (odd_cols U2s) ! i ! j) [0..<c]) [0..<n])"
  have ev2: "even (ncols U2s)" using ev sh by simp
  have shp: "ncols (even_cols U1s) = c" "ncols (odd_cols U1s) = c"
            "nrows (even_cols U1s) = n" "nrows (odd_cols U1s) = n"
            "ncols (even_cols U2s) = c" "ncols (odd_cols U2s) = c"
            "nrows (even_cols U2s) = n" "nrows (odd_cols U2s) = n"
    using ev ev2 sh by (simp_all add: even_odd_cols_shape c_def n_def)
  have s1: "np_add (even_cols U1s) (odd_cols U1s) =
            Inr (NDArray2 c (map (\<lambda>i. map (\<lambda>j. rows (even_cols U1s) ! i ! j + rows (odd_cols U1s) ! i ! j)
                                   [0..<c]) [0..<n]))"
    unfolding np_add_def using shp by (intro np_binop_shape) simp_all
  have s2: "np_sub (even_cols U1s) (odd_cols U1s) = Inr D"
    unfolding np_sub_def D_def using shp by (intro np_binop_shape) simp_all
  have shD: "nrows (np_scale (sqrt 3) D) = n" "ncols (np_scale (sqrt 3) D) = c"
    by (simp_all add: D_def np_scale_def nrows_def)
  have "np_add (np_scale (sqrt 3) D) (even_cols U2s) =
        Inr (NDArray2 c (map (\<lambda>i. map (\<lambda>j. rows (np_scale (sqrt 3) D) ! i ! j + rows (even_cols U2s) ! i ! j)
                                   [0..<c]) [0..<n]))"
    unfolding np_add_def using shp shD by (intro np_binop_shape) simp_all
  also have "map (\<lambda>i. map (\<lambda>j. rows (np_scale (sqrt 3) D) ! i ! j + rows (even_cols U2s) ! i ! j)
                                   [0..<c]) [0..<n] = rows E"
    by (simp add: E_def D_def np_scale_def cong: map_cong)
  finally have s3: "np_add (np_scale (sqrt 3) D) (even_cols U2s) = Inr E"
    by (simp add: E_def)
  have shE: "nrows E = n" "ncols E = c" by (simp_all add: E_def nrows_def)
  have "np_add E (odd_cols U2s) =
        Inr (NDArray2 c (map (\<lambda>i. map (\<lambda>j. rows E ! i ! j + rows (odd_cols U2s) ! i ! j)
                                   [0..<c]) [0..<n]))"
    unfolding np_add_def using shp shE by (intro np_binop_shape) simp_all
  also have "map (\<lambda>i. map (\<lambda>j. rows E ! i ! j + rows (odd_cols U2s) ! i ! j) [0..<c]) [0..<n] = rows F"
    by (simp add: E_def F_def cong: map_cong)
  finally have s4: "np_add E (odd_cols U2s) = Inr F"
    by (simp add: F_def)
  have r1: "np_div_scalar (NDArray2 c (map (\<lambda>i. map (\<lambda>j. rows (even_cols U1s) ! i ! j + rows (odd_cols U1s) ! i ! j)
                                   [0..<c]) [0..<n])) (sqrt 2)
            = NDArray2 c (map spec_new_U1_row (rows U1s))"
    using refine_U1_rows[OF wf ev] by (simp add: np_div_scalar_def c_def n_def)
  have r2: "np_div_scalar F (2 * sqrt 2) = NDArray2 c (map2 spec_new_U2_row (rows U1s) (rows U2s))"
    using refine_U2_rows[OF wf wf2 ev sh] by (simp add: np_div_scalar_def F_def c_def n_def)
  show ?thesis
    using ne by (simp add: double_increments_def s1 s2 s3 s4 r1 r2 every_other_spec_times)
      (simp add: c_def)
qed

lemma double_increments_None:
  assumes "wf_array U1s" "even (ncols U1s)" "tms \<noteq> []"
  shows "double_increments tms U1s None =
         Inr (Refined2 (spec_new_times tms)
                (NDArray2 (ncols U1s div 2) (map spec_new_U1_row (rows U1s))))"
  using assms refine_U1_rows[OF assms(1,2)]
  by (simp add: double_increments_def np_add_def np_binop_same_shape even_odd_cols_shape
      np_div_scalar_def every_other_spec_times)

text \<open>
  Claim C1. For a time sequence of length \<open>L\<close> with \<open>L - 1\<close> even and a batch \<open>U1s\<close> of rows of
  length \<open>L - 1\<close>, \<open>double_increments\<close> returns every other time point (there are
  \<open>(L - 1) div 2 + 1\<close> of them) and, row by row, \<open>(U1s[2n] + U1s[2n+1]) / sqrt 2\<close>; without
  \<open>U2s\<close> it returns just these two, and with a batch \<open>U2s\<close> of the same shape it also returns
  \<open>(sqrt 3 * (U1s[2n] - U1s[2n+1]) + U2s[2n] + U2s[2n+1]) / (2 * sqrt 2)\<close>. On
  \<open>times = [0,1,2,3,4]\<close> and \<open>U1s = [[1,1,1,1]]\<close> the result is \<open>[0,2,4]\<close> and
  \<open>[[sqrt 2, sqrt 2]]\<close>.
\<close>

theorem double_increments_refines:
  "(wf_array U1s \<and> ncols U1s + 1 = length tms \<and> even (ncols U1s) \<longrightarrow>
      double_increments tms U1s None =
        Inr (Refined2 (spec_new_times tms)
               (NDArray2 (ncols U1s div 2) (map spec_new_U1_row (rows U1s)))) \<and>
      length (spec_new_times tms) = (length tms - 1) div 2 + 1 \<and>
      (wf_array U2s \<and> ncols U2s = ncols U1s \<and> nrows U2s = nrows U1s \<longrightarrow>
         double_increments tms U1s (Some U2s) =
           Inr (Refined3 (spec_new_times tms)
                  (NDArray2 (ncols U1s div 2) (map spec_new_U1_row (rows U1s)))
                  (NDArray2 (ncols U1s div 2) (map2 spec_new_U2_row (rows U1s) (rows U2s)))))) \<and>
   double_increments [0, 1, 2, 3, 4] (NDArray2 4 [[1, 1, 1, 1]]) None =
     Inr (Refined2 [0, 2, 4] (NDArray2 2 [[sqrt 2, sqrt 2]]))"
proof (intro conjI impI)
  assume h: "wf_array U1s \<and> ncols U1s + 1 = length tms \<and> even (ncols U1s)"
  then have ne: "tms \<noteq> []" by auto
  from h ne show "double_increments tms U1s None =
        Inr (Refined2 (spec_new_times tms)
               (NDArray2 (ncols U1s div 2) (map spec_new_U1_row (rows U1s))))"
    by (intro double_increments_None) simp_all
  show "length (spec_new_times tms) = (length tms - 1) div 2 + 1"
    by (simp add: spec_new_times_def)
  assume h2: "wf_array U2s \<and> ncols U2s = ncols U1s \<and> nrows U2s = nrows U1s"
  from h h2 ne show "double_increments tms U1s (Some U2s) =
           Inr (Refined3 (spec_new_times tms)
                  (NDArray2 (ncols U1s div 2) (map spec_new_U1_row (rows U1s)))
                  (NDArray2 (ncols U1s div 2) (map2 spec_new_U2_row (rows U1s) (rows U2s))))"
    by (intro double_increments_Some) simp_all
next
  show "double_increments [0, 1, 2, 3, 4] (NDArray2 4 [[1, 1, 1, 1]]) None =
     Inr (Refined2 [0, 2, 4] (NDArray2 2 [[sqrt 2, sqrt 2]]))"
    by (simp add: double_increments_def np_add_def np_binop_def even_cols_def odd_cols_def
        np_div_scalar_def bcompat_def bdim_def bidx_def nrows_def real_div_sqrt upt_rec)
qed

theorem double_increments_refines_witness:
  "wf_array (NDArray2 2 [[1, 3]]) \<and> ncols (NDArray2 2 [[1, 3]]) + 1 = length [0, 1, 2 :: real] \<and>
   even (ncols (NDArray2 2 [[1, 3]])) \<and>
   wf_array (NDArray2 2 [[2, 0]]) \<and> ncols (NDArray2 2 [[2, 0]]) = ncols (NDArray2 2 [[1, 3]]) \<and>
   nrows (NDArray2 2 [[2, 0]]) = nrows (NDArray2 2 [[1, 3]]) \<and>
   double_increments [0, 1, 2] (NDArray2 2 [[1, 3]]) None =
     Inr (Refined2 [0, 2] (NDArray2 1 [[(1 + 3) / sqrt 2]])) \<and>
   double_increments [0, 1, 2] (NDArray2 2 [[1, 3]]) (Some (NDArray2 2 [[2, 0]])) =
     Inr (Refined3 [0, 2] (NDArray2 1 [[(1 + 3) / sqrt 2]])
            (NDArray2 1 [[(sqrt 3 * (1 - 3) + 2 + 0) / (2 * sqrt 2)]]))"
  using double_increments_refines[of "NDArray2 2 [[1, 3]]" "[0, 1, 2]" "NDArray2 2 [[2, 0]]"]
  by (simp add: wf_array_def nrows_def spec_new_times_def spec_new_U1_row_def
      spec_new_U2_row_def upt_rec)

section \<open>Properties of the integrators\<close>

lemma integrate_loop_Inr:
  assumes "\<And>x s. s \<in> set steps \<Longrightarrow> row x s = Inr (g x s)" and "X \<noteq> []"
  shows "\<exists>Y. integrate_loop row X steps = Inr Y \<and> length Y = length X + length steps \<and>
             take (length X) Y = X \<and>
             (\<forall>i<length steps. Y ! (length X + i) = g (Y ! (length X + i - 1)) (steps ! i))"
  using assms
proof (induction steps arbitrary: X)
  case Nil
  then show ?case by simp
next
  case (Cons s steps)
  have row_s: "row (last X) s = Inr (g (last X) s)" using Cons.prems(1) by simp
  from Cons.IH[of "X @ [g (last X) s]"] Cons.prems(1)
  obtain Y where Y: "integrate_loop row (X @ [g (last X) s]) steps = Inr Y"
      "length Y = length X + 1 + length steps"
      "take (length X + 1) Y = X @ [g (last X) s]"
      "\<forall>i<length steps. Y ! (length X + 1 + i) = g (Y ! (length X + i)) (steps ! i)"
    by auto
  have pre: "\<And>j. j < length X + 1 \<Longrightarrow> Y ! j = (X @ [g (last X) s]) ! j"
    using Y(3) by (metis nth_take)
  have tk: "take (length X) Y = X"
  proof -
    have "take (length X) Y = take (length X) (take (length X + 1) Y)" by simp
    also have "\<dots> = X" unfolding Y(3) by simp
    finally show ?thesis .
  qed
  have y0: "Y ! (length X) = g (last X) s" using pre[of "length X"] by simp
  have ym: "Y ! (length X - 1) = last X"
    using pre[of "length X - 1"] Cons.prems(2) by (simp add: nth_append last_conv_nth)
  have "\<forall>i<length (s # steps). Y ! (length X + i) = g (Y ! (length X + i - 1)) ((s # steps) ! i)"
  proof (intro allI impI)
    fix i assume "i < length (s # steps)"
    show "Y ! (length X + i) = g (Y ! (length X + i - 1)) ((s # steps) ! i)"
    proof (cases i)
      case 0
      then show ?thesis using y0 ym by simp
    next
      case (Suc k)
      then have "k < length steps" using \<open>i < length (s # steps)\<close> by simp
      with Y(4) Suc show ?thesis by simp
    qed
  qed
  with Y(1,2) tk row_s show ?case by simp
qed

lemma length_time_increments: "length (time_increments ts) = length ts - 1"
  by (simp add: time_increments_def)

lemma nth_time_increments:
  "i < length ts - 1 \<Longrightarrow> time_increments ts ! i = ts ! (i + 1) - ts ! i"
  by (simp add: time_increments_def nth_tl nth_butlast)

lemma sorted_time_increments:
  "sorted ts \<Longrightarrow> i < length ts - 1 \<Longrightarrow> 0 \<le> time_increments ts ! i"
  by (simp add: nth_time_increments sorted_iff_nth_mono)

lemma scalar_noise_loop:
  assumes len: "length ts = Suc (length Us)" and srt: "sorted ts"
  shows "\<exists>X. (case np_product2 (np_sqrt (time_increments ts)) Us of
               Inl e \<Rightarrow> Inl e
             | Inr dWs \<Rightarrow>
                 integrate_loop
                   (\<lambda>X (t, dt, dW). case dW of None \<Rightarrow> Inl NotReal | Some w \<Rightarrow> Inr (upd X t dt w))
                   [X0] (zip (butlast ts) (zip (time_increments ts) dWs))) = Inr X \<and>
             length X = length ts \<and> X ! 0 = X0 \<and>
             (\<forall>i<length Us. X ! (i + 1) =
                upd (X ! i) (ts ! i) (ts ! (i + 1) - ts ! i) (sqrt (ts ! (i + 1) - ts ! i) * Us ! i))"
proof -
  define dts where "dts = time_increments ts"
  define dWs where "dWs = map2 (\<lambda>s u. map_option (\<lambda>r. r * u) s) (np_sqrt dts) Us"
  define steps where "steps = zip (butlast ts) (zip dts dWs)"
  define g where "g = (\<lambda>x (s :: real \<times> real \<times> real option).
                        upd x (fst s) (fst (snd s)) (the (snd (snd s))))"
  have ldts: "length dts = length Us" using len by (simp add: dts_def length_time_increments)
  have prod: "np_product2 (np_sqrt dts) Us = Inr dWs"
    using ldts by (simp add: np_product2_def np_sqrt_def dWs_def)
  have lsteps: "length steps = length Us"
    using len ldts by (simp add: steps_def dWs_def np_sqrt_def)
  have nth_steps: "steps ! i = (ts ! i, ts ! (i + 1) - ts ! i,
                                 Some (sqrt (ts ! (i + 1) - ts ! i) * Us ! i))"
    if "i < length Us" for i
  proof -
    have i: "i < length ts - 1" using that len by simp
    have d: "dts ! i = ts ! (i + 1) - ts ! i" unfolding dts_def using i by (rule nth_time_increments)
    have "0 \<le> dts ! i" unfolding dts_def using srt i by (rule sorted_time_increments)
    then have "dWs ! i = Some (sqrt (dts ! i) * Us ! i)"
      using that ldts by (simp add: dWs_def np_sqrt_def)
    then show ?thesis
      using that ldts len d by (simp add: steps_def dWs_def np_sqrt_def nth_butlast)
  qed
  have rows: "(case s of (t, dt, dW) \<Rightarrow>
                 case dW of None \<Rightarrow> Inl NotReal | Some w \<Rightarrow> Inr (upd x t dt w)) = Inr (g x s)"
    if "s \<in> set steps" for x s
  proof -
    from that obtain i where "i < length steps" "steps ! i = s" by (auto simp: in_set_conv_nth)
    then show ?thesis using nth_steps[of i] lsteps by (auto simp: g_def)
  qed
  from integrate_loop_Inr[where g = g and X = "[X0]" and steps = steps, OF rows]
  obtain Y where Y: "integrate_loop
                   (\<lambda>X (t, dt, dW). case dW of None \<Rightarrow> Inl NotReal | Some w \<Rightarrow> Inr (upd X t dt w))
                   [X0] steps = Inr Y"
      "length Y = 1 + length steps" "take 1 Y = [X0]"
      "\<forall>i<length steps. Y ! (1 + i) = g (Y ! i) (steps ! i)"
    by auto
  have "Y ! 0 = X0" using Y(2,3) by (cases Y) simp_all
  moreover have "\<forall>i<length Us. Y ! (i + 1) =
                upd (Y ! i) (ts ! i) (ts ! (i + 1) - ts ! i) (sqrt (ts ! (i + 1) - ts ! i) * Us ! i)"
    using Y(4) lsteps nth_steps by (simp add: g_def)
  ultimately show ?thesis
    using Y(1,2) prod lsteps len by (simp add: dts_def[symmetric] steps_def[symmetric])
qed

lemma measurement_loop:
  assumes len: "length ts = Suc (length dMs)"
  shows "\<exists>X. integrate_loop
                (\<lambda>X (t, dt, dM). let dW = dW_fn dM dt X t in Inr (upd X t dt dW))
                [X0] (zip (butlast ts) (zip (time_increments ts) dMs)) = Inr X \<and>
             length X = length ts \<and> X ! 0 = X0 \<and>
             (\<forall>i<length dMs. X ! (i + 1) =
                upd (X ! i) (ts ! i) (ts ! (i + 1) - ts ! i)
                    (dW_fn (dMs ! i) (ts ! (i + 1) - ts ! i) (X ! i) (ts ! i)))"
proof -
  define dts where "dts = time_increments ts"
  define steps where "steps = zip (butlast ts) (zip dts dMs)"
  define g where "g = (\<lambda>x s.
                        upd x (fst s) (fst (snd s)) (dW_fn (snd (snd s)) (fst (snd s)) x (fst s)))"
  have ldts: "length dts = length dMs" using len by (simp add: dts_def length_time_increments)
  have lsteps: "length steps = length dMs" using len ldts by (simp add: steps_def)
  have nth_steps: "steps ! i = (ts ! i, ts ! (i + 1) - ts ! i, dMs ! i)" if "i < length dMs" for i
  proof -
    have i: "i < length ts - 1" using that len by simp
    have d: "dts ! i = ts ! (i + 1) - ts ! i" unfolding dts_def using i by (rule nth_time_increments)
    then show ?thesis using that ldts len by (simp add: steps_def nth_butlast)
  qed
  have rows: "(case s of (t, dt, dM) \<Rightarrow> let dW = dW_fn dM dt x t in Inr (upd x t dt dW)) = Inr (g x s)"
    for x s by (cases s) (simp add: g_def)
  from integrate_loop_Inr[where g = g and X = "[X0]" and steps = steps, OF rows]
  obtain Y where Y: "integrate_loop
                   (\<lambda>X (t, dt, dM). let dW = dW_fn dM dt X t in Inr (upd X t dt dW))
                   [X0] steps = Inr Y"
      "length Y = 1 + length steps" "take 1 Y = [X0]"
      "\<forall>i<length steps. Y ! (1 + i) = g (Y ! i) (steps ! i)"
    by auto
  have "Y ! 0 = X0" using Y(2,3) by (cases Y) simp_all
  moreover have "\<forall>i<length dMs. Y ! (i + 1) =
                upd (Y ! i) (ts ! i) (ts ! (i + 1) - ts ! i)
                    (dW_fn (dMs ! i) (ts ! (i + 1) - ts ! i) (Y ! i) (ts ! i))"
    using Y(4) lsteps nth_steps by (simp add: g_def)
  ultimately show ?thesis
    using Y(1,2) lsteps len by (simp add: dts_def[symmetric] steps_def[symmetric])
qed

lemma np_binop1_same_length:
  assumes "length xs = length ys"
  shows "np_binop1 f xs ys = Inr (map2 f xs ys)"
proof -
  have "map (\<lambda>i. f (xs ! bidx (length xs) i) (ys ! bidx (length ys) i))
            [0..<bdim (length xs) (length ys)] = map2 f xs ys"
    using assms by (intro nth_equalityI) (auto simp: bdim_def bidx_def)
  then show ?thesis using assms by (simp add: np_binop1_def bcompat_def)
qed

lemma taylor_trajectory:
  assumes len: "length ts = Suc (length U1s)" and len2: "length U2s = length U1s"
    and srt: "sorted ts"
  shows "\<exists>X. time_ind_taylor_1_5 drift diffusion b_dx_b b_dx_a a_dx_b a_dx_a b_dx_b_dx_b
               b_b_dx_dx_b b_b_dx_dx_a X0 ts U1s U2s = Inr X \<and>
             length X = length ts \<and> X ! 0 = X0 \<and>
             (\<forall>i<length U1s. X ! (i + 1) =
                taylor_1_5_update drift diffusion b_dx_b b_dx_a a_dx_b a_dx_a b_dx_b_dx_b
                  b_b_dx_dx_b b_b_dx_dx_a (X ! i) (ts ! (i + 1) - ts ! i)
                  (U1s ! i * sqrt (ts ! (i + 1) - ts ! i))
                  ((U1s ! i + U2s ! i / sqrt 3) * sqrt (ts ! (i + 1) - ts ! i)
                     * (ts ! (i + 1) - ts ! i) / 2))"
proof -
  define upd where "upd = taylor_1_5_update drift diffusion b_dx_b b_dx_a a_dx_b a_dx_a
                            b_dx_b_dx_b b_b_dx_dx_b b_b_dx_dx_a"
  define dts where "dts = time_increments ts"
  define dWs where "dWs = map2 (\<lambda>u s. map_option (\<lambda>r. u * r) s) U1s (np_sqrt dts)"
  define Usum where "Usum = map2 (\<lambda>u1 u2. u1 + u2) U1s (map (\<lambda>u. u / sqrt 3) U2s)"
  define Usqrt where "Usqrt = map2 (\<lambda>u s. map_option (\<lambda>r. u * r) s) Usum (np_sqrt dts)"
  define Uprod where "Uprod = map2 (\<lambda>z dt. map_option (\<lambda>r. r * dt) z) Usqrt dts"
  define dZs where "dZs = map (map_option (\<lambda>r. r / 2)) Uprod"
  define steps where "steps = zip (butlast ts) (zip dts (zip dWs dZs))"
  define row where "row = (\<lambda>X (s :: real \<times> real \<times> real option \<times> real option).
       case s of (t, dt, dW, dZ) \<Rightarrow>
         (case (dW, dZ) of (Some w, Some z) \<Rightarrow> Inr (upd X dt w z) | _ \<Rightarrow> Inl NotReal))"
  define g where "g = (\<lambda>x (s :: real \<times> real \<times> real option \<times> real option).
                        upd x (fst (snd s)) (the (fst (snd (snd s)))) (the (snd (snd (snd s)))))"
  have ldts: "length dts = length U1s" using len by (simp add: dts_def length_time_increments)
  have lsq: "length (np_sqrt dts) = length U1s" using ldts by (simp add: np_sqrt_def)
  have lens: "length dWs = length U1s" "length Usum = length U1s" "length Usqrt = length U1s"
    "length Uprod = length U1s" "length dZs = length U1s"
    using ldts lsq len2 by (simp_all add: dWs_def Usum_def Usqrt_def Uprod_def dZs_def)
  have b1: "np_binop1 (\<lambda>u s. map_option (\<lambda>r. u * r) s) U1s (np_sqrt dts) = Inr dWs"
    unfolding dWs_def using lsq by (intro np_binop1_same_length) simp
  have b2: "np_binop1 (\<lambda>u1 u2. u1 + u2) U1s (map (\<lambda>u. u / sqrt 3) U2s) = Inr Usum"
    unfolding Usum_def using len2 by (intro np_binop1_same_length) simp
  have b3: "np_binop1 (\<lambda>u s. map_option (\<lambda>r. u * r) s) Usum (np_sqrt dts) = Inr Usqrt"
    unfolding Usqrt_def using lsq lens by (intro np_binop1_same_length) simp
  have b4: "np_binop1 (\<lambda>z dt. map_option (\<lambda>r. r * dt) z) Usqrt dts = Inr Uprod"
    unfolding Uprod_def using ldts lens by (intro np_binop1_same_length) simp
  have lsteps: "length steps = length U1s" using len ldts lens by (simp add: steps_def)
  have nth_steps: "steps ! i = (ts ! i, ts ! (i + 1) - ts ! i,
        Some (U1s ! i * sqrt (ts ! (i + 1) - ts ! i)),
        Some ((U1s ! i + U2s ! i / sqrt 3) * sqrt (ts ! (i + 1) - ts ! i)
               * (ts ! (i + 1) - ts ! i) / 2))"
    if "i < length U1s" for i
  proof -
    have i: "i < length ts - 1" using that len by simp
    have d: "dts ! i = ts ! (i + 1) - ts ! i" unfolding dts_def using i by (rule nth_time_increments)
    have pos: "0 \<le> dts ! i" unfolding dts_def using srt i by (rule sorted_time_increments)
    have sq: "np_sqrt dts ! i = Some (sqrt (dts ! i))"
      using pos that ldts by (simp add: np_sqrt_def)
    have w: "dWs ! i = Some (U1s ! i * sqrt (dts ! i))"
      using that lsq sq by (simp add: dWs_def)
    have u: "Usum ! i = U1s ! i + U2s ! i / sqrt 3"
      using that len2 by (simp add: Usum_def)
    have q: "Usqrt ! i = Some ((U1s ! i + U2s ! i / sqrt 3) * sqrt (dts ! i))"
      using that lsq lens sq u by (simp add: Usqrt_def)
    have p: "Uprod ! i = Some ((U1s ! i + U2s ! i / sqrt 3) * sqrt (dts ! i) * dts ! i)"
      using that ldts lens q by (simp add: Uprod_def)
    have z: "dZs ! i = Some ((U1s ! i + U2s ! i / sqrt 3) * sqrt (dts ! i) * dts ! i / 2)"
      using that lens p by (simp add: dZs_def)
    show ?thesis
      using that ldts lens len d w z by (simp add: steps_def nth_butlast)
  qed
  have rows: "row x s = Inr (g x s)" if "s \<in> set steps" for x s
  proof -
    from that obtain i where "i < length steps" "steps ! i = s" by (auto simp: in_set_conv_nth)
    then show ?thesis using nth_steps[of i] lsteps by (auto simp: g_def row_def)
  qed
  from integrate_loop_Inr[where g = g and X = "[X0]" and steps = steps and row = row, OF rows]
  obtain Y where Y: "integrate_loop row [X0] steps = Inr Y"
      "length Y = 1 + length steps" "take 1 Y = [X0]"
      "\<forall>i<length steps. Y ! (1 + i) = g (Y ! i) (steps ! i)"
    by auto
  have "Y ! 0 = X0" using Y(2,3) by (cases Y) simp_all
  moreover have "\<forall>i<length U1s. Y ! (i + 1) =
                upd (Y ! i) (ts ! (i + 1) - ts ! i)
                  (U1s ! i * sqrt (ts ! (i + 1) - ts ! i))
                  ((U1s ! i + U2s ! i / sqrt 3) * sqrt (ts ! (i + 1) - ts ! i)
                     * (ts ! (i + 1) - ts ! i) / 2)"
    using Y(4) lsteps nth_steps by (simp add: g_def)
  moreover have "time_ind_taylor_1_5 drift diffusion b_dx_b b_dx_a a_dx_b a_dx_a b_dx_b_dx_b
               b_b_dx_dx_b b_b_dx_dx_a X0 ts U1s U2s = integrate_loop row [X0] steps"
    unfolding time_ind_taylor_1_5_def Let_def dts_def[symmetric] row_def upd_def steps_def dZs_def
    by (simp add: b1 b2 b3 b4)
  ultimately show ?thesis
    using Y(1,2) lsteps len by (simp add: upd_def)
qed

lemma euler_trajectory:
  assumes "length ts = Suc (length Us)" "sorted ts"
  shows "\<exists>X. euler drift_fn diffusion_fn X0 ts Us = Inr X \<and> length X = length ts \<and> X ! 0 = X0 \<and>
             (\<forall>i<length Us. X ! (i + 1) =
                euler_update drift_fn diffusion_fn (X ! i) (ts ! i) (ts ! (i + 1) - ts ! i)
                  (sqrt (ts ! (i + 1) - ts ! i) * Us ! i))"
  unfolding euler_def Let_def using assms by (rule scalar_noise_loop)

lemma milstein_trajectory:
  assumes "length ts = Suc (length Us)" "sorted ts"
  shows "\<exists>X. milstein drift diffusion b_dx_b X0 ts Us = Inr X \<and> length X = length ts \<and> X ! 0 = X0 \<and>
             (\<forall>i<length Us. X ! (i + 1) =
                milstein_update drift diffusion b_dx_b (X ! i) (ts ! i) (ts ! (i + 1) - ts ! i)
                  (sqrt (ts ! (i + 1) - ts ! i) * Us ! i))"
  unfolding milstein_def Let_def using assms by (rule scalar_noise_loop)

lemma faulty_milstein_trajectory:
  assumes "length ts = Suc (length Us)" "sorted ts"
  shows "\<exists>X. faulty_milstein drift diffusion b_dx_b X0 ts Us = Inr X \<and> length X = length ts \<and>
             X ! 0 = X0 \<and>
             (\<forall>i<length Us. X ! (i + 1) =
                faulty_milstein_update drift diffusion b_dx_b (X ! i) (ts ! i) (ts ! (i + 1) - ts ! i)
                  (sqrt (ts ! (i + 1) - ts ! i) * Us ! i))"
  unfolding faulty_milstein_def Let_def using assms by (rule scalar_noise_loop)

lemma meas_euler_trajectory:
  assumes "length ts = Suc (length dMs)"
  shows "\<exists>X. meas_euler drift_fn diffusion_fn dW_fn X0 ts dMs = Inr X \<and> length X = length ts \<and>
             X ! 0 = X0 \<and>
             (\<forall>i<length dMs. X ! (i + 1) =
                euler_update drift_fn diffusion_fn (X ! i) (ts ! i) (ts ! (i + 1) - ts ! i)
                  (dW_fn (dMs ! i) (ts ! (i + 1) - ts ! i) (X ! i) (ts ! i)))"
  unfolding meas_euler_def Let_def using assms by (rule measurement_loop[unfolded Let_def])

lemma meas_milstein_trajectory:
  assumes "length ts = Suc (length dMs)"
  shows "\<exists>X. meas_milstein drift_fn diffusion_fn b_dx_b_fn dW_fn X0 ts dMs = Inr X \<and>
             length X = length ts \<and> X ! 0 = X0 \<and>
             (\<forall>i<length dMs. X ! (i + 1) =
                milstein_update drift_fn diffusion_fn b_dx_b_fn (X ! i) (ts ! i) (ts ! (i + 1) - ts ! i)
                  (dW_fn (dMs ! i) (ts ! (i + 1) - ts ! i) (X ! i) (ts ! i)))"
  unfolding meas_milstein_def Let_def using assms by (rule measurement_loop[unfolded Let_def])

lemma faulty_update_doubled:
  "faulty_milstein_update drift diffusion c X t dt dW =
   milstein_update drift diffusion (\<lambda>X t. 2 *\<^sub>R c X t) X t dt dW"
  by (simp add: faulty_milstein_update_def milstein_update_def)

text \<open>
  Claim C3. The faulty Milstein update is the Milstein update without the factor 1/2 on the
  correction term: each step of \<open>faulty_milstein\<close> adds
  \<open>a \<Delta>t + b \<Delta>W + c (\<Delta>W\<^sup>2 - \<Delta>t)\<close> where each step of \<open>milstein\<close> adds
  \<open>a \<Delta>t + b \<Delta>W + c (\<Delta>W\<^sup>2 - \<Delta>t) / 2\<close>, and \<open>faulty_milstein\<close> with the correction
  callable \<open>c\<close> returns, state for state (and error for error), what \<open>milstein\<close> returns with
  the callable \<open>2 c\<close>.
\<close>

theorem faulty_milstein_omits_half:
  fixes drift diffusion c :: "'v::real_vector \<Rightarrow> real \<Rightarrow> 'v"
  shows "faulty_milstein drift diffusion c X0 ts Us =
           milstein drift diffusion (\<lambda>X t. 2 *\<^sub>R c X t) X0 ts Us \<and>
         (length ts = Suc (length Us) \<and> sorted ts \<longrightarrow>
           (\<exists>X Y. faulty_milstein drift diffusion c X0 ts Us = Inr X \<and>
                  milstein drift diffusion c X0 ts Us = Inr Y \<and>
              (\<forall>i<length Us.
                 X ! (i + 1) = X ! i + (ts ! (i + 1) - ts ! i) *\<^sub>R drift (X ! i) (ts ! i)
                   + (Us ! i * sqrt (ts ! (i + 1) - ts ! i)) *\<^sub>R diffusion (X ! i) (ts ! i)
                   + ((Us ! i * sqrt (ts ! (i + 1) - ts ! i))\<^sup>2 - (ts ! (i + 1) - ts ! i))
                       *\<^sub>R c (X ! i) (ts ! i) \<and>
                 Y ! (i + 1) = Y ! i + (ts ! (i + 1) - ts ! i) *\<^sub>R drift (Y ! i) (ts ! i)
                   + (Us ! i * sqrt (ts ! (i + 1) - ts ! i)) *\<^sub>R diffusion (Y ! i) (ts ! i)
                   + (1 / 2) *\<^sub>R (((Us ! i * sqrt (ts ! (i + 1) - ts ! i))\<^sup>2 - (ts ! (i + 1) - ts ! i))
                       *\<^sub>R c (Y ! i) (ts ! i)))))"
proof (intro conjI impI)
  show "faulty_milstein drift diffusion c X0 ts Us =
           milstein drift diffusion (\<lambda>X t. 2 *\<^sub>R c X t) X0 ts Us"
    unfolding faulty_milstein_def milstein_def faulty_update_doubled ..
next
  assume h: "length ts = Suc (length Us) \<and> sorted ts"
  from h faulty_milstein_trajectory[of ts Us drift diffusion c X0]
  obtain X where X: "faulty_milstein drift diffusion c X0 ts Us = Inr X"
    "\<forall>i<length Us. X ! (i + 1) =
        faulty_milstein_update drift diffusion c (X ! i) (ts ! i) (ts ! (i + 1) - ts ! i)
          (sqrt (ts ! (i + 1) - ts ! i) * Us ! i)"
    by blast
  from h milstein_trajectory[of ts Us drift diffusion c X0]
  obtain Y where Y: "milstein drift diffusion c X0 ts Us = Inr Y"
    "\<forall>i<length Us. Y ! (i + 1) =
        milstein_update drift diffusion c (Y ! i) (ts ! i) (ts ! (i + 1) - ts ! i)
          (sqrt (ts ! (i + 1) - ts ! i) * Us ! i)"
    by blast
  show "\<exists>X Y. faulty_milstein drift diffusion c X0 ts Us = Inr X \<and>
                  milstein drift diffusion c X0 ts Us = Inr Y \<and>
              (\<forall>i<length Us.
                 X ! (i + 1) = X ! i + (ts ! (i + 1) - ts ! i) *\<^sub>R drift (X ! i) (ts ! i)
                   + (Us ! i * sqrt (ts ! (i + 1) - ts ! i)) *\<^sub>R diffusion (X ! i) (ts ! i)
                   + ((Us ! i * sqrt (ts ! (i + 1) - ts ! i))\<^sup>2 - (ts ! (i + 1) - ts ! i))
                       *\<^sub>R c (X ! i) (ts ! i) \<and>
                 Y ! (i + 1) = Y ! i + (ts ! (i + 1) - ts ! i) *\<^sub>R drift (Y ! i) (ts ! i)
                   + (Us ! i * sqrt (ts ! (i + 1) - ts ! i)) *\<^sub>R diffusion (Y ! i) (ts ! i)
                   + (1 / 2) *\<^sub>R (((Us ! i * sqrt (ts ! (i + 1) - ts ! i))\<^sup>2 - (ts ! (i + 1) - ts ! i))
                       *\<^sub>R c (Y ! i) (ts ! i)))"
    using X Y
    by (intro exI[of _ X] exI[of _ Y])
       (simp add: faulty_milstein_update_def milstein_update_def mult.commute)
qed

theorem faulty_milstein_omits_half_witness:
  "length [0, 1 :: real] = Suc (length [1 :: real]) \<and> sorted [0, 1 :: real] \<and>
   faulty_milstein linear_coef linear_coef linear_coef 1 [0, 1] [1] = Inr [1, 3] \<and>
   milstein linear_coef linear_coef (\<lambda>X t. 2 *\<^sub>R linear_coef X t) 1 [0, 1] [1] = Inr [1, 3]"
  using faulty_milstein_omits_half[of linear_coef linear_coef linear_coef 1 "[0, 1]" "[1]"]
  by (simp add: milstein_def np_product2_def np_sqrt_def time_increments_def
      milstein_update_def Let_def linear_coef_def)

text \<open>
  Claim C4. For each of the six integrators, on a time grid of \<open>L\<close> points (nondecreasing, so
  that every square root is real) with \<open>L - 1\<close> noise samples or measurement increments, the
  run returns a trajectory of exactly \<open>L\<close> entries whose first entry is \<open>X0\<close> and whose entry
  \<open>i + 1\<close> is the update rule applied to entry \<open>i\<close> and the data of step \<open>i\<close>.
\<close>

theorem trajectory_shape:
  fixes drift diffusion b_dx_b :: "'v::real_vector \<Rightarrow> real \<Rightarrow> 'v"
    and a b c1 c2 c3 c4 c5 c6 c7 :: "'v \<Rightarrow> 'v"
    and dW_fn :: "'m \<Rightarrow> real \<Rightarrow> 'v \<Rightarrow> real \<Rightarrow> real"
  shows
  "(length ts = Suc (length Us) \<and> sorted ts \<longrightarrow>
      (\<exists>X. euler drift diffusion X0 ts Us = Inr X \<and> length X = length ts \<and> X ! 0 = X0 \<and>
         (\<forall>i<length Us. X ! (i + 1) =
            euler_update drift diffusion (X ! i) (ts ! i) (ts ! (i + 1) - ts ! i)
              (sqrt (ts ! (i + 1) - ts ! i) * Us ! i))) \<and>
      (\<exists>X. milstein drift diffusion b_dx_b X0 ts Us = Inr X \<and> length X = length ts \<and> X ! 0 = X0 \<and>
         (\<forall>i<length Us. X ! (i + 1) =
            milstein_update drift diffusion b_dx_b (X ! i) (ts ! i) (ts ! (i + 1) - ts ! i)
              (sqrt (ts ! (i + 1) - ts ! i) * Us ! i))) \<and>
      (\<exists>X. faulty_milstein drift diffusion b_dx_b X0 ts Us = Inr X \<and> length X = length ts \<and>
         X ! 0 = X0 \<and>
         (\<forall>i<length Us. X ! (i + 1) =
            faulty_milstein_update drift diffusion b_dx_b (X ! i) (ts ! i) (ts ! (i + 1) - ts ! i)
              (sqrt (ts ! (i + 1) - ts ! i) * Us ! i))) \<and>
      (length U2s = length Us \<longrightarrow>
        (\<exists>X. time_ind_taylor_1_5 a b c1 c2 c3 c4 c5 c6 c7 X0 ts Us U2s = Inr X \<and>
           length X = length ts \<and> X ! 0 = X0 \<and>
           (\<forall>i<length Us. X ! (i + 1) =
              taylor_1_5_update a b c1 c2 c3 c4 c5 c6 c7 (X ! i) (ts ! (i + 1) - ts ! i)
                (Us ! i * sqrt (ts ! (i + 1) - ts ! i))
                ((Us ! i + U2s ! i / sqrt 3) * sqrt (ts ! (i + 1) - ts ! i)
                   * (ts ! (i + 1) - ts ! i) / 2))))) \<and>
   (length ts = Suc (length dMs) \<longrightarrow>
      (\<exists>X. meas_euler drift diffusion dW_fn X0 ts dMs = Inr X \<and> length X = length ts \<and>
         X ! 0 = X0 \<and>
         (\<forall>i<length dMs. X ! (i + 1) =
            euler_update drift diffusion (X ! i) (ts ! i) (ts ! (i + 1) - ts ! i)
              (dW_fn (dMs ! i) (ts ! (i + 1) - ts ! i) (X ! i) (ts ! i)))) \<and>
      (\<exists>X. meas_milstein drift diffusion b_dx_b dW_fn X0 ts dMs = Inr X \<and>
         length X = length ts \<and> X ! 0 = X0 \<and>
         (\<forall>i<length dMs. X ! (i + 1) =
            milstein_update drift diffusion b_dx_b (X ! i) (ts ! i) (ts ! (i + 1) - ts ! i)
              (dW_fn (dMs ! i) (ts ! (i + 1) - ts ! i) (X ! i) (ts ! i)))))"
proof (intro conjI impI)
  assume h: "length ts = Suc (length Us) \<and> sorted ts"
  then have l: "length ts = Suc (length Us)" and s: "sorted ts" by simp_all
  from l s show "\<exists>X. euler drift diffusion X0 ts Us = Inr X \<and> length X = length ts \<and> X ! 0 = X0 \<and>
         (\<forall>i<length Us. X ! (i + 1) =
            euler_update drift diffusion (X ! i) (ts ! i) (ts ! (i + 1) - ts ! i)
              (sqrt (ts ! (i + 1) - ts ! i) * Us ! i))"
    by (rule euler_trajectory)
  from l s show "\<exists>X. milstein drift diffusion b_dx_b X0 ts Us = Inr X \<and> length X = length ts \<and>
         X ! 0 = X0 \<and>
         (\<forall>i<length Us. X ! (i + 1) =
            milstein_update drift diffusion b_dx_b (X ! i) (ts ! i) (ts ! (i + 1) - ts ! i)
              (sqrt (ts ! (i + 1) - ts ! i) * Us ! i))"
    by (rule milstein_trajectory)
  from l s show "\<exists>X. faulty_milstein drift diffusion b_dx_b X0 ts Us = Inr X \<and>
         length X = length ts \<and> X ! 0 = X0 \<and>
         (\<forall>i<length Us. X ! (i + 1) =
            faulty_milstein_update drift diffusion b_dx_b (X ! i) (ts ! i) (ts ! (i + 1) - ts ! i)
              (sqrt (ts ! (i + 1) - ts ! i) * Us ! i))"
    by (rule faulty_milstein_trajectory)
  assume l2: "length U2s = length Us"
  from l l2 s show "\<exists>X. time_ind_taylor_1_5 a b c1 c2 c3 c4 c5 c6 c7 X0 ts Us U2s = Inr X \<and>
           length X = length ts \<and> X ! 0 = X0 \<and>
           (\<forall>i<length Us. X ! (i + 1) =
              taylor_1_5_update a b c1 c2 c3 c4 c5 c6 c7 (X ! i) (ts ! (i + 1) - ts ! i)
                (Us ! i * sqrt (ts ! (i + 1) - ts ! i))
                ((Us ! i + U2s ! i / sqrt 3) * sqrt (ts ! (i + 1) - ts ! i)
                   * (ts ! (i + 1) - ts ! i) / 2))"
    by (rule taylor_trajectory)
next
  assume l: "length ts = Suc (length dMs)"
  from l show "\<exists>X. meas_euler drift diffusion dW_fn X0 ts dMs = Inr X \<and> length X = length ts \<and>
         X ! 0 = X0 \<and>
         (\<forall>i<length dMs. X ! (i + 1) =
            euler_update drift diffusion (X ! i) (ts ! i) (ts ! (i + 1) - ts ! i)
              (dW_fn (dMs ! i) (ts ! (i + 1) - ts ! i) (X ! i) (ts ! i)))"
    by (rule meas_euler_trajectory)
  from l show "\<exists>X. meas_milstein drift diffusion b_dx_b dW_fn X0 ts dMs = Inr X \<and>
         length X = length ts \<and> X ! 0 = X0 \<and>
         (\<forall>i<length dMs. X ! (i + 1) =
            milstein_update drift diffusion b_dx_b (X ! i) (ts ! i) (ts ! (i + 1) - ts ! i)
              (dW_fn (dMs ! i) (ts ! (i + 1) - ts ! i) (X ! i) (ts ! i)))"
    by (rule meas_milstein_trajectory)
qed

theorem trajectory_shape_witness:
  "length [0, 1, 2 :: real] = Suc (length [0, 1 :: real]) \<and> sorted [0, 1, 2 :: real] \<and>
   length [0, 0 :: real] = length [0, 1 :: real] \<and>
   (\<exists>X. euler linear_coef unit_coef 1 [0, 1, 2] [0, 1] = Inr X \<and> length X = 3 \<and> X ! 0 = 1) \<and>
   (\<exists>X. milstein linear_coef unit_coef zero_coef 1 [0, 1, 2] [0, 1] = Inr X \<and> length X = 3 \<and>
        X ! 0 = 1) \<and>
   (\<exists>X. faulty_milstein linear_coef unit_coef zero_coef 1 [0, 1, 2] [0, 1] = Inr X \<and>
        length X = 3 \<and> X ! 0 = 1) \<and>
   (\<exists>X. time_ind_taylor_1_5 linear_coef_ti unit_coef_ti zero_coef_ti unit_coef_ti zero_coef_ti
          linear_coef_ti zero_coef_ti zero_coef_ti zero_coef_ti 1 [0, 1, 2] [0, 1] [0, 0] = Inr X \<and>
        length X = 3 \<and> X ! 0 = 1) \<and>
   (\<exists>X. meas_euler linear_coef unit_coef direct_dW 1 [0, 1, 2] [0, 1] = Inr X \<and> length X = 3 \<and>
        X ! 0 = 1) \<and>
   (\<exists>X. meas_milstein linear_coef unit_coef zero_coef direct_dW 1 [0, 1, 2] [0, 1] = Inr X \<and>
        length X = 3 \<and> X ! 0 = 1)"
  using trajectory_shape[where ts = "[0, 1, 2]" and Us = "[0, 1]" and U2s = "[0, 0]"
      and dMs = "[0, 1]" and drift = linear_coef and diffusion = unit_coef and b_dx_b = zero_coef
      and ?X0.0 = 1 and a = linear_coef_ti and b = unit_coef_ti and ?c1.0 = zero_coef_ti
      and ?c2.0 = unit_coef_ti and ?c3.0 = zero_coef_ti and ?c4.0 = linear_coef_ti
      and ?c5.0 = zero_coef_ti and ?c6.0 = zero_coef_ti and ?c7.0 = zero_coef_ti
      and dW_fn = direct_dW]
  by auto

text \<open>
  Claim C2. On a nondecreasing grid with \<open>U1s\<close> and \<open>U2s\<close> of length \<open>len(ts) - 1\<close>, step \<open>i\<close>
  of \<open>time_ind_taylor_1_5\<close> uses \<open>\<Delta>W = U1 sqrt \<Delta>t\<close> and
  \<open>\<Delta>Z = (U1 + U2 / sqrt 3) sqrt \<Delta>t \<Delta>t / 2\<close> and sets the next state to the current one plus
  \<open>a \<Delta>t + b \<Delta>W + 1/2 (b_dx_b) (\<Delta>W\<^sup>2 - \<Delta>t) + (b_dx_a) \<Delta>Z
    + (a_dx_b + 1/2 b_b_dx_dx_b) (\<Delta>W \<Delta>t - \<Delta>Z) + 1/2 (a_dx_a + 1/2 b_b_dx_dx_a) \<Delta>t\<^sup>2
    + 1/2 (b_dx_b_dx_b) (1/3 \<Delta>W\<^sup>2 - \<Delta>t) \<Delta>W\<close>.
\<close>

theorem taylor_1_5_step:
  fixes drift diffusion b_dx_b b_dx_a a_dx_b a_dx_a b_dx_b_dx_b b_b_dx_dx_b b_b_dx_dx_a
    :: "'v::real_vector \<Rightarrow> 'v"
  assumes "length ts = Suc (length U1s)" and "length U2s = length U1s" and "sorted ts"
  shows "\<exists>X. time_ind_taylor_1_5 drift diffusion b_dx_b b_dx_a a_dx_b a_dx_a b_dx_b_dx_b
               b_b_dx_dx_b b_b_dx_dx_a X0 ts U1s U2s = Inr X \<and>
             length X = length ts \<and>
             (\<forall>i<length U1s.
                let dt = ts ! (i + 1) - ts ! i;
                    dW = U1s ! i * sqrt dt;
                    dZ = (U1s ! i + U2s ! i / sqrt 3) * sqrt dt * dt / 2;
                    x = X ! i
                in X ! (i + 1) =
                     x + dt *\<^sub>R drift x + dW *\<^sub>R diffusion x
                       + (1 / 2) *\<^sub>R ((dW\<^sup>2 - dt) *\<^sub>R b_dx_b x)
                       + dZ *\<^sub>R b_dx_a x
                       + (dW * dt - dZ) *\<^sub>R (a_dx_b x + (1 / 2) *\<^sub>R b_b_dx_dx_b x)
                       + (1 / 2) *\<^sub>R (dt\<^sup>2 *\<^sub>R (a_dx_a x + (1 / 2) *\<^sub>R b_b_dx_dx_a x))
                       + (1 / 2) *\<^sub>R ((((1 / 3) * dW\<^sup>2 - dt) * dW) *\<^sub>R b_dx_b_dx_b x))"
proof -
  from taylor_trajectory[OF assms, of drift diffusion b_dx_b b_dx_a a_dx_b a_dx_a b_dx_b_dx_b
      b_b_dx_dx_b b_b_dx_dx_a X0]
  obtain X where X: "time_ind_taylor_1_5 drift diffusion b_dx_b b_dx_a a_dx_b a_dx_a b_dx_b_dx_b
               b_b_dx_dx_b b_b_dx_dx_a X0 ts U1s U2s = Inr X" "length X = length ts"
     "\<forall>i<length U1s. X ! (i + 1) =
                taylor_1_5_update drift diffusion b_dx_b b_dx_a a_dx_b a_dx_a b_dx_b_dx_b
                  b_b_dx_dx_b b_b_dx_dx_a (X ! i) (ts ! (i + 1) - ts ! i)
                  (U1s ! i * sqrt (ts ! (i + 1) - ts ! i))
                  ((U1s ! i + U2s ! i / sqrt 3) * sqrt (ts ! (i + 1) - ts ! i)
                     * (ts ! (i + 1) - ts ! i) / 2)"
    by blast
  show ?thesis
    using X by (intro exI[of _ X]) (simp add: taylor_1_5_update_def Let_def mult.commute)
qed

theorem taylor_1_5_step_witness:
  "length [0, 1, 2 :: real] = Suc (length [0, 1 :: real]) \<and>
   length [0, 0 :: real] = length [0, 1 :: real] \<and> sorted [0, 1, 2 :: real] \<and>
   time_ind_taylor_1_5 linear_coef_ti unit_coef_ti zero_coef_ti unit_coef_ti zero_coef_ti
     linear_coef_ti zero_coef_ti zero_coef_ti zero_coef_ti 1 [0, 1, 2] [0, 1] [0, 0]
     = Inr [1, 5 / 2, 31 / 4]"
  using taylor_1_5_step[of "[0, 1, 2]" "[0, 1]" "[0, 0]" linear_coef_ti unit_coef_ti zero_coef_ti
      unit_coef_ti zero_coef_ti linear_coef_ti zero_coef_ti zero_coef_ti zero_coef_ti 1]
  by (simp add: time_ind_taylor_1_5_def np_binop1_def bcompat_def bdim_def bidx_def np_sqrt_def
      time_increments_def taylor_1_5_update_def Let_def upt_rec power2_eq_square
      zero_coef_ti_def unit_coef_ti_def linear_coef_ti_def)

lemma constant_trajectory:
  assumes "length X = Suc n" "X ! 0 = X0" "\<forall>i<n. X ! (i + 1) = X ! i"
  shows "X = replicate (Suc n) X0"
proof -
  have "i \<le> n \<Longrightarrow> X ! i = X0" for i
    using assms(2,3) by (induction i) simp_all
  then show ?thesis using assms(1) by (intro nth_equalityI) (simp_all add: less_Suc_eq_le del: replicate_Suc)
qed

text \<open>
  Claim C8, as amended. On a nondecreasing grid with all noise samples 0 and a drift that is
  identically zero, \<open>euler\<close> returns the initial condition at every time point for every
  diffusion callable; \<open>milstein\<close> does so when the correction callable \<open>b_dx_b\<close> is identically
  zero as well, and \<open>time_ind_taylor_1_5\<close> when \<open>b_dx_b\<close>, \<open>a_dx_a\<close> and \<open>b_b_dx_dx_a\<close> are.
\<close>

theorem zero_noise_driftless:
  fixes drift diffusion b_dx_b :: "'v::real_vector \<Rightarrow> real \<Rightarrow> 'v"
    and a b c_b_dx_b c_b_dx_a c_a_dx_b c_a_dx_a c_b_dx_b_dx_b c_b_b_dx_dx_b c_b_b_dx_dx_a :: "'v \<Rightarrow> 'v"
  assumes "length ts = Suc (length Us)" and "sorted ts" and "list_all (\<lambda>u. u = 0) Us"
  shows "((\<forall>X t. drift X t = 0) \<longrightarrow>
            euler drift diffusion X0 ts Us = Inr (replicate (length ts) X0)) \<and>
         ((\<forall>X t. drift X t = 0) \<and> (\<forall>X t. b_dx_b X t = 0) \<longrightarrow>
            milstein drift diffusion b_dx_b X0 ts Us = Inr (replicate (length ts) X0)) \<and>
         ((\<forall>X. a X = 0) \<and> (\<forall>X. c_b_dx_b X = 0) \<and> (\<forall>X. c_a_dx_a X = 0) \<and>
          (\<forall>X. c_b_b_dx_dx_a X = 0) \<and> length U2s = length Us \<and> list_all (\<lambda>u. u = 0) U2s \<longrightarrow>
            time_ind_taylor_1_5 a b c_b_dx_b c_b_dx_a c_a_dx_b c_a_dx_a c_b_dx_b_dx_b
              c_b_b_dx_dx_b c_b_b_dx_dx_a X0 ts Us U2s = Inr (replicate (length ts) X0))"
proof (intro conjI impI)
  have z: "Us ! i = 0" if "i < length Us" for i
    using assms(3) that by (simp add: list_all_length)
  {
    assume d: "\<forall>X t. drift X t = 0"
    from euler_trajectory[OF assms(1,2), of drift diffusion X0]
    obtain X where X: "euler drift diffusion X0 ts Us = Inr X" "length X = length ts" "X ! 0 = X0"
      "\<forall>i<length Us. X ! (i + 1) =
                euler_update drift diffusion (X ! i) (ts ! i) (ts ! (i + 1) - ts ! i)
                  (sqrt (ts ! (i + 1) - ts ! i) * Us ! i)" by blast
    have "\<forall>i<length Us. X ! (i + 1) = X ! i"
      using X(4) d z by (simp add: euler_update_def)
    with X(2,3) assms(1) have "X = replicate (Suc (length Us)) X0"
      by (intro constant_trajectory) simp_all
    with X(1) assms(1) show "euler drift diffusion X0 ts Us = Inr (replicate (length ts) X0)"
      by simp
  }
  {
    assume d: "(\<forall>X t. drift X t = 0) \<and> (\<forall>X t. b_dx_b X t = 0)"
    from milstein_trajectory[OF assms(1,2), of drift diffusion b_dx_b X0]
    obtain X where X: "milstein drift diffusion b_dx_b X0 ts Us = Inr X" "length X = length ts"
      "X ! 0 = X0"
      "\<forall>i<length Us. X ! (i + 1) =
                milstein_update drift diffusion b_dx_b (X ! i) (ts ! i) (ts ! (i + 1) - ts ! i)
                  (sqrt (ts ! (i + 1) - ts ! i) * Us ! i)" by blast
    have "\<forall>i<length Us. X ! (i + 1) = X ! i"
      using X(4) d z by (simp add: milstein_update_def)
    with X(2,3) assms(1) have "X = replicate (Suc (length Us)) X0"
      by (intro constant_trajectory) simp_all
    with X(1) assms(1)
    show "milstein drift diffusion b_dx_b X0 ts Us = Inr (replicate (length ts) X0)"
      by simp
  }
  {
    assume d: "(\<forall>X. a X = 0) \<and> (\<forall>X. c_b_dx_b X = 0) \<and> (\<forall>X. c_a_dx_a X = 0) \<and>
          (\<forall>X. c_b_b_dx_dx_a X = 0) \<and> length U2s = length Us \<and> list_all (\<lambda>u. u = 0) U2s"
    then have l2: "length U2s = length Us" by simp
    have z2: "U2s ! i = 0" if "i < length Us" for i
      using d that by (simp add: list_all_length)
    from taylor_trajectory[OF assms(1) l2 assms(2), of a b c_b_dx_b c_b_dx_a c_a_dx_b c_a_dx_a
        c_b_dx_b_dx_b c_b_b_dx_dx_b c_b_b_dx_dx_a X0]
    obtain X where X: "time_ind_taylor_1_5 a b c_b_dx_b c_b_dx_a c_a_dx_b c_a_dx_a c_b_dx_b_dx_b
              c_b_b_dx_dx_b c_b_b_dx_dx_a X0 ts Us U2s = Inr X" "length X = length ts"
      "X ! 0 = X0"
      "\<forall>i<length Us. X ! (i + 1) =
                taylor_1_5_update a b c_b_dx_b c_b_dx_a c_a_dx_b c_a_dx_a c_b_dx_b_dx_b
                  c_b_b_dx_dx_b c_b_b_dx_dx_a (X ! i) (ts ! (i + 1) - ts ! i)
                  (Us ! i * sqrt (ts ! (i + 1) - ts ! i))
                  ((Us ! i + U2s ! i / sqrt 3) * sqrt (ts ! (i + 1) - ts ! i)
                     * (ts ! (i + 1) - ts ! i) / 2)" by blast
    have "\<forall>i<length Us. X ! (i + 1) = X ! i"
      using X(4) d z z2 by (simp add: taylor_1_5_update_def)
    with X(2,3) assms(1) have "X = replicate (Suc (length Us)) X0"
      by (intro constant_trajectory) simp_all
    with X(1) assms(1)
    show "time_ind_taylor_1_5 a b c_b_dx_b c_b_dx_a c_a_dx_b c_a_dx_a c_b_dx_b_dx_b
              c_b_b_dx_dx_b c_b_b_dx_dx_a X0 ts Us U2s = Inr (replicate (length ts) X0)"
      by simp
  }
qed

theorem zero_noise_driftless_witness:
  "length [0, 1, 2 :: real] = Suc (length [0, 0 :: real]) \<and> sorted [0, 1, 2 :: real] \<and>
   list_all (\<lambda>u. u = 0) [0, 0 :: real] \<and> (\<forall>X t. zero_coef X t = 0) \<and>
   (\<forall>X. zero_coef_ti X = 0) \<and>
   euler zero_coef linear_coef 1 [0, 1, 2] [0, 0] = Inr [1, 1, 1] \<and>
   milstein zero_coef unit_coef zero_coef 1 [0, 1, 2] [0, 0] = Inr [1, 1, 1] \<and>
   time_ind_taylor_1_5 zero_coef_ti linear_coef_ti zero_coef_ti unit_coef_ti unit_coef_ti
     zero_coef_ti unit_coef_ti unit_coef_ti zero_coef_ti 1 [0, 1, 2] [0, 0] [0, 0] = Inr [1, 1, 1]"
  using zero_noise_driftless[where ts = "[0, 1, 2]" and Us = "[0, 0]" and U2s = "[0, 0]"
      and drift = zero_coef and diffusion = linear_coef and b_dx_b = zero_coef and ?X0.0 = 1
      and a = zero_coef_ti and b = linear_coef_ti and c_b_dx_b = zero_coef_ti
      and c_b_dx_a = unit_coef_ti and c_a_dx_b = unit_coef_ti and c_a_dx_a = zero_coef_ti
      and c_b_dx_b_dx_b = unit_coef_ti and c_b_b_dx_dx_b = unit_coef_ti
      and c_b_b_dx_dx_a = zero_coef_ti]
    zero_noise_driftless[where ts = "[0, 1, 2]" and Us = "[0, 0]"
      and drift = zero_coef and diffusion = unit_coef and b_dx_b = zero_coef and ?X0.0 = "1 :: real"]
  by (simp add: zero_coef_def zero_coef_ti_def numeral_3_eq_3)

text \<open>
  Claim C8 as stated fails: for the driftless equation \<open>dX = X dW\<close>, whose Milstein correction
  \<open>(b \<partial>\<^sub>X) b\<close> is \<open>X\<close>, one step of length 1 with zero noise takes 1 to 1/2.
\<close>

theorem zero_noise_driftless_counterexample:
  "milstein zero_coef linear_coef linear_coef 1 [0, 1] [0] = Inr [1, 1 / 2] \<and>
   milstein zero_coef linear_coef linear_coef 1 [0, 1] [0] \<noteq> Inr [1, 1]"
  by (simp add: milstein_def np_product2_def np_sqrt_def time_increments_def milstein_update_def
      Let_def zero_coef_def linear_coef_def)

section \<open>Properties of the convergence-rate driver\<close>

lemma l1_norm_sum: "l1_norm v = (\<Sum>i = 0..<length v. \<bar>v ! i\<bar>)"
  by (simp add: l1_norm_def sum_list_sum_nth)

lemma l1_norm_diff:
  assumes "length a = length b"
  shows "l1_norm (map2 (\<lambda>x y. x - y) a b) = (\<Sum>i = 0..<length b. \<bar>a ! i - b ! i\<bar>)"
  using assms by (simp add: l1_norm_sum)

lemma l1_norm_diff_pos:
  assumes "length a = length b" "a \<noteq> b"
  shows "0 < l1_norm (map2 (\<lambda>x y. x - y) a b)"
proof -
  from assms obtain i where i: "i < length b" "a ! i \<noteq> b ! i"
    by (auto simp: list_eq_iff_nth_eq)
  have nn: "0 \<le> l1_norm (map2 (\<lambda>x y. x - y) a b)"
    unfolding l1_norm_def by (rule sum_list_nonneg) auto
  have "l1_norm (map2 (\<lambda>x y. x - y) a b) \<noteq> 0"
  proof
    assume "l1_norm (map2 (\<lambda>x y. x - y) a b) = 0"
    then have "\<forall>x\<in>set (map abs (map2 (\<lambda>x y. x - y) a b)). x = 0"
      unfolding l1_norm_def by (subst (asm) sum_list_nonneg_eq_0_iff) auto
    moreover have "\<bar>a ! i - b ! i\<bar> \<in> set (map abs (map2 (\<lambda>x y. x - y) a b))"
      using i assms(1) by (auto simp: set_conv_nth intro!: exI[of _ i])
    ultimately show False using i(2) by auto
  qed
  with nn show ?thesis by simp
qed

lemma calc_rate_value:
  assumes "keyword_args < nxt h"
  shows "fst (homodyne_strong_calc_rate integrator_fn keyword_args tms U1s U2s times_2 U1s_2 U2s_2
               times_4 U1s_4 U2s_4 h) =
     (case integrator_fn ((objs h keyword_args)
             (''ts'' \<mapsto> Arr tms, ''U1s'' \<mapsto> Arr U1s, ''U2s'' \<mapsto> Arr U2s)) of
            Inl e \<Rightarrow> Inl e
          | Inr rhos \<Rightarrow>
          (case integrator_fn ((objs h keyword_args)
             (''ts'' \<mapsto> Arr times_2, ''U1s'' \<mapsto> Arr U1s_2, ''U2s'' \<mapsto> Arr U2s_2)) of
            Inl e \<Rightarrow> Inl e
          | Inr rhos_2 \<Rightarrow>
          (case integrator_fn ((objs h keyword_args)
             (''ts'' \<mapsto> Arr times_4, ''U1s'' \<mapsto> Arr U1s_4, ''U2s'' \<mapsto> Arr U2s_4)) of
            Inl e \<Rightarrow> Inl e
          | Inr rhos_4 \<Rightarrow>
          (case py_last rhos_4 of Inl e \<Rightarrow> Inl e | Inr end_4 \<Rightarrow>
          (case py_last rhos_2 of Inl e \<Rightarrow> Inl e | Inr end_2 \<Rightarrow>
          (case np_binop1 (\<lambda>x y. x - y) end_4 end_2 of Inl e \<Rightarrow> Inl e | Inr diff_42 \<Rightarrow>
          (case py_last rhos of Inl e \<Rightarrow> Inl e | Inr end_1 \<Rightarrow>
          (case np_binop1 (\<lambda>x y. x - y) end_2 end_1 of Inl e \<Rightarrow> Inl e | Inr diff_21 \<Rightarrow>
          (case (np_log (l1_norm diff_42), np_log (l1_norm diff_21)) of
             (Some log_42, Some log_21) \<Rightarrow> Inr ((log_42 - log_21) / ln 2)
           | _ \<Rightarrow> Inl NotReal)))))))))"
  using assms
  by (simp add: homodyne_strong_calc_rate_def dict_copy_def dict_update_def alloc_def store_def
      Let_def cong: sum.case_cong)

text \<open>
  Claim C5. \<open>homodyne_strong_calc_rate\<close> runs the integrator on the caller's keyword arguments
  completed with the grid and the samples of each of the three resolutions, and returns
  \<open>(log (L1 (X4_end - X2_end)) - log (L1 (X2_end - X_end))) / log 2\<close>, where \<open>X_end\<close>, \<open>X2_end\<close>
  and \<open>X4_end\<close> are the last entries of the three trajectories and \<open>L1\<close> is the sum of the
  absolute values of the components. It is stated for runs whose value is a real number:
  the three trajectories are not empty, their last entries have one dimension and differ.
\<close>

theorem calc_rate_formula:
  assumes "keyword_args < nxt h"
    and "integrator_fn ((objs h keyword_args)
             (''ts'' \<mapsto> Arr tms, ''U1s'' \<mapsto> Arr U1s, ''U2s'' \<mapsto> Arr U2s)) = Inr rhos"
    and "integrator_fn ((objs h keyword_args)
             (''ts'' \<mapsto> Arr times_2, ''U1s'' \<mapsto> Arr U1s_2, ''U2s'' \<mapsto> Arr U2s_2)) = Inr rhos_2"
    and "integrator_fn ((objs h keyword_args)
             (''ts'' \<mapsto> Arr times_4, ''U1s'' \<mapsto> Arr U1s_4, ''U2s'' \<mapsto> Arr U2s_4)) = Inr rhos_4"
    and "rhos \<noteq> []" and "rhos_2 \<noteq> []" and "rhos_4 \<noteq> []"
    and "length (last rhos) = d" and "length (last rhos_2) = d" and "length (last rhos_4) = d"
    and "last rhos_4 \<noteq> last rhos_2" and "last rhos_2 \<noteq> last rhos"
  shows "fst (homodyne_strong_calc_rate integrator_fn keyword_args tms U1s U2s times_2 U1s_2 U2s_2
               times_4 U1s_4 U2s_4 h) =
         Inr ((ln (\<Sum>i = 0..<d. \<bar>last rhos_4 ! i - last rhos_2 ! i\<bar>)
               - ln (\<Sum>i = 0..<d. \<bar>last rhos_2 ! i - last rhos ! i\<bar>)) / ln 2) \<and>
         (\<forall>v. l1_norm v = (\<Sum>i = 0..<length v. \<bar>v ! i\<bar>))"
proof -
  have l42: "length (last rhos_4) = length (last rhos_2)"
    and l21: "length (last rhos_2) = length (last rhos)"
    using assms(8-10) by simp_all
  have e4: "py_last rhos_4 = Inr (last rhos_4)" and e2: "py_last rhos_2 = Inr (last rhos_2)"
    and e1: "py_last rhos = Inr (last rhos)"
    using assms(5-7) by (simp_all add: py_last_def split: list.splits)
  have d42: "np_binop1 (\<lambda>x y. x - y) (last rhos_4) (last rhos_2)
             = Inr (map2 (\<lambda>x y. x - y) (last rhos_4) (last rhos_2))"
    using l42 by (rule np_binop1_same_length)
  have d21: "np_binop1 (\<lambda>x y. x - y) (last rhos_2) (last rhos)
             = Inr (map2 (\<lambda>x y. x - y) (last rhos_2) (last rhos))"
    using l21 by (rule np_binop1_same_length)
  have n42: "l1_norm (map2 (\<lambda>x y. x - y) (last rhos_4) (last rhos_2))
             = (\<Sum>i = 0..<d. \<bar>last rhos_4 ! i - last rhos_2 ! i\<bar>)"
    using l1_norm_diff[OF l42] assms(9) by simp
  have n21: "l1_norm (map2 (\<lambda>x y. x - y) (last rhos_2) (last rhos))
             = (\<Sum>i = 0..<d. \<bar>last rhos_2 ! i - last rhos ! i\<bar>)"
    using l1_norm_diff[OF l21] assms(8) by simp
  have p42: "0 < l1_norm (map2 (\<lambda>x y. x - y) (last rhos_4) (last rhos_2))"
    using l42 assms(11) by (rule l1_norm_diff_pos)
  have p21: "0 < l1_norm (map2 (\<lambda>x y. x - y) (last rhos_2) (last rhos))"
    using l21 assms(12) by (rule l1_norm_diff_pos)
  have "fst (homodyne_strong_calc_rate integrator_fn keyword_args tms U1s U2s times_2 U1s_2 U2s_2
               times_4 U1s_4 U2s_4 h) =
         Inr ((ln (l1_norm (map2 (\<lambda>x y. x - y) (last rhos_4) (last rhos_2)))
               - ln (l1_norm (map2 (\<lambda>x y. x - y) (last rhos_2) (last rhos)))) / ln 2)"
    using p42 p21
    by (simp add: calc_rate_value[OF assms(1)] assms(2-4) e1 e2 e4 d42 d21 np_log_def)
  then have "fst (homodyne_strong_calc_rate integrator_fn keyword_args tms U1s U2s times_2 U1s_2
               U2s_2 times_4 U1s_4 U2s_4 h) =
         Inr ((ln (\<Sum>i = 0..<d. \<bar>last rhos_4 ! i - last rhos_2 ! i\<bar>)
               - ln (\<Sum>i = 0..<d. \<bar>last rhos_2 ! i - last rhos ! i\<bar>)) / ln 2)"
    by (simp only: n42 n21)
  then show ?thesis
    using l1_norm_sum by blast
qed

lemma example_euler_1:
  "euler zero_coef linear_coef 1 [0, 1, 2, 3, 4] [1, 1, 1, 1] = Inr [1, 2, 4, 8, 16]"
  by (simp add: euler_def np_product2_def np_sqrt_def time_increments_def euler_update_def
      Let_def zero_coef_def linear_coef_def)

lemma example_euler_2:
  "euler zero_coef linear_coef 1 [0, 2, 4] [sqrt 2, sqrt 2] = Inr [1, 3, 9]"
  by (simp add: euler_def np_product2_def np_sqrt_def time_increments_def euler_update_def
      Let_def zero_coef_def linear_coef_def)

lemma example_euler_4:
  "euler zero_coef linear_coef 1 [0, 4] [2] = Inr [1, 5]"
  by (simp add: euler_def np_product2_def np_sqrt_def time_increments_def euler_update_def
      Let_def zero_coef_def linear_coef_def)

theorem calc_rate_formula_witness:
  "(0 :: nat) < nxt example_heap \<and>
   example_integrator_fn ((objs example_heap 0)
      (''ts'' \<mapsto> Arr [0, 1, 2, 3, 4], ''U1s'' \<mapsto> Arr [1, 1, 1, 1], ''U2s'' \<mapsto> Arr [0, 0, 0, 0]))
     = Inr [[1], [2], [4], [8], [16]] \<and>
   example_integrator_fn ((objs example_heap 0)
      (''ts'' \<mapsto> Arr [0, 2, 4], ''U1s'' \<mapsto> Arr [sqrt 2, sqrt 2], ''U2s'' \<mapsto> Arr [0, 0]))
     = Inr [[1], [3], [9]] \<and>
   example_integrator_fn ((objs example_heap 0)
      (''ts'' \<mapsto> Arr [0, 4], ''U1s'' \<mapsto> Arr [2], ''U2s'' \<mapsto> Arr [0])) = Inr [[1], [5]] \<and>
   fst (homodyne_strong_calc_rate example_integrator_fn 0 [0, 1, 2, 3, 4] [1, 1, 1, 1] [0, 0, 0, 0]
          [0, 2, 4] [sqrt 2, sqrt 2] [0, 0] [0, 4] [2] [0] example_heap)
     = Inr ((ln 4 - ln 7) / ln 2)"
proof -
  have h: "(0 :: nat) < nxt example_heap" by (simp add: example_heap_def)
  have i1: "example_integrator_fn ((objs example_heap 0)
      (''ts'' \<mapsto> Arr [0, 1, 2, 3, 4], ''U1s'' \<mapsto> Arr [1, 1, 1, 1], ''U2s'' \<mapsto> Arr [0, 0, 0, 0]))
     = Inr [[1], [2], [4], [8], [16]]"
    by (simp add: example_integrator_fn_def example_euler_1)
  have i2: "example_integrator_fn ((objs example_heap 0)
      (''ts'' \<mapsto> Arr [0, 2, 4], ''U1s'' \<mapsto> Arr [sqrt 2, sqrt 2], ''U2s'' \<mapsto> Arr [0, 0]))
     = Inr [[1], [3], [9]]"
    by (simp add: example_integrator_fn_def example_euler_2)
  have i4: "example_integrator_fn ((objs example_heap 0)
      (''ts'' \<mapsto> Arr [0, 4], ''U1s'' \<mapsto> Arr [2], ''U2s'' \<mapsto> Arr [0])) = Inr [[1], [5]]"
    by (simp add: example_integrator_fn_def example_euler_4)
  from calc_rate_formula[OF h i1 i2 i4, of 1] h i1 i2 i4 show ?thesis
    by simp
qed

lemma upt_0_2: "[0..<2] = [0, 1]"
  by (simp add: numeral_2_eq_2)

lemma upt_0_3: "[0..<3] = [0, 1, 2]"
  by (simp add: numeral_3_eq_3)

lemma sqrt2_pair: "(sqrt 2 + sqrt 2) / sqrt 2 = (2::real)"
  by (simp add: field_simps)

lemmas np_eval = np_add_def np_sub_def np_binop_def even_cols_def odd_cols_def
      np_div_scalar_def np_scale_def bcompat_def bdim_def bidx_def nrows_def Let_def
      upt_0_2 upt_0_3

lemma odd_count_example:
  "double_increments [0, 1, 2, 3] (NDArray2 3 [[1, 2, 3]]) None
   = Inr (Refined2 [0, 2] (NDArray2 2 [[3 / sqrt 2, 5 / sqrt 2]]))"
  by (simp add: double_increments_def np_eval)

lemma six_intervals_once:
  "double_increments [0, 1, 2, 3, 4, 5, 6] (NDArray2 6 [[1, 1, 1, 1, 1, 1]])
     (Some (NDArray2 6 [[0, 0, 0, 0, 0, 0]]))
   = Inr (Refined3 [0, 2, 4, 6] (NDArray2 3 [[sqrt 2, sqrt 2, sqrt 2]]) (NDArray2 3 [[0, 0, 0]]))"
  by (simp add: double_increments_def np_eval real_div_sqrt)

lemma six_intervals_twice:
  "double_increments [0, 2, 4, 6] (NDArray2 3 [[sqrt 2, sqrt 2, sqrt 2]])
     (Some (NDArray2 3 [[0, 0, 0]]))
   = Inr (Refined3 [0, 4] (NDArray2 2 [[2, 2]]) (NDArray2 2 [[0, 0]]))"
  by (simp add: double_increments_def np_eval sqrt2_pair)

lemma two_rows_once:
  "double_increments [0, 1, 2, 3, 4] (NDArray2 4 [[1, 1, 1, 1], [0, 0, 0, 0]])
     (Some (NDArray2 4 [[0, 0, 0, 0], [0, 0, 0, 0]]))
   = Inr (Refined3 [0, 2, 4] (NDArray2 2 [[sqrt 2, sqrt 2], [0, 0]]) (NDArray2 2 [[0, 0], [0, 0]]))"
  by (simp add: double_increments_def np_eval real_div_sqrt)

lemma two_rows_twice:
  "double_increments [0, 2, 4] (NDArray2 2 [[sqrt 2, sqrt 2], [0, 0]])
     (Some (NDArray2 2 [[0, 0], [0, 0]]))
   = Inr (Refined3 [0, 4] (NDArray2 1 [[2], [0]]) (NDArray2 1 [[0], [0]]))"
  by (simp add: double_increments_def np_eval sqrt2_pair)

lemmas shape_defs = np_add_def np_sub_def np_binop_def np_scale_def np_div_scalar_def
  even_cols_def odd_cols_def nrows_def bcompat_def bdim_def

lemma double_increments_odd_fails:
  assumes "odd (ncols U1s)" "5 \<le> ncols U1s"
  shows "double_increments tms U1s U2s = Inl BroadcastError"
proof -
  from assms obtain k where k: "ncols U1s = 2 * k + 1" "2 \<le> k"
    by (auto elim!: oddE)
  then have "\<not> bcompat (ncols (even_cols U1s)) (ncols (odd_cols U1s))"
    by (simp add: even_cols_def odd_cols_def bcompat_def)
  then show ?thesis
    by (simp add: double_increments_def np_add_def np_binop_def)
qed

lemma double_increments_None_returns:
  assumes "even (ncols U1s) \<or> ncols U1s < 5"
  shows "\<exists>t A. double_increments tms U1s None = Inr (Refined2 t A)"
proof -
  from assms have "even (ncols U1s) \<or> ncols U1s = 1 \<or> ncols U1s = 3"
    by presburger
  then have "bcompat (ncols (even_cols U1s)) (ncols (odd_cols U1s))"
    by (auto simp: even_cols_def odd_cols_def bcompat_def elim!: evenE)
  moreover have "bcompat (nrows (even_cols U1s)) (nrows (odd_cols U1s))"
    by (simp add: even_cols_def odd_cols_def bcompat_def nrows_def)
  ultimately show ?thesis
    by (simp add: double_increments_def np_add_def np_binop_def Let_def)
qed

lemma double_increments_Some_shape:
  assumes sh: "ncols U2s = ncols U1s" "nrows U2s = nrows U1s"
    and ok: "even (ncols U1s) \<or> ncols U1s < 5"
  shows "\<exists>t A B. double_increments tms U1s (Some U2s) = Inr (Refined3 t A B) \<and>
           ncols A = bdim ((ncols U1s + 1) div 2) (ncols U1s div 2) \<and> ncols B = ncols A \<and>
           nrows A = nrows U1s \<and> nrows B = nrows U1s"
proof -
  from ok have "even (ncols U1s) \<or> ncols U1s = 1 \<or> ncols U1s = 3"
    by presburger
  then consider (ev) "even (ncols U1s)" | (one) "ncols U1s = 1" | (three) "ncols U1s = 3"
    by blast
  then show ?thesis
  proof cases
    case ev
    then obtain k where "ncols U1s = 2 * k" by (auto elim!: evenE)
    with sh show ?thesis
      by (simp add: double_increments_def shape_defs Let_def)
  next
    case one
    with sh show ?thesis
      by (simp add: double_increments_def shape_defs Let_def)
  next
    case three
    with sh show ?thesis
      by (simp add: double_increments_def shape_defs Let_def)
  qed
qed

lemma refined_count:
  assumes "even c \<or> c < 5"
  shows "(odd (bdim ((c + 1) div 2) (c div 2)) \<and> 5 \<le> bdim ((c + 1) div 2) (c div 2)) =
         (even c \<and> odd (c div 2) \<and> 5 \<le> c div 2)"
proof -
  from assms have "even c \<or> c = 1 \<or> c = 3" by presburger
  then show ?thesis
    by (auto simp: bdim_def elim!: evenE)
qed

lemma grid_convergence_fails_iff:
  assumes sh: "ncols U2s = ncols U1s" "nrows U2s = nrows U1s"
  shows "((\<exists>e. fst (homodyne_strong_grid_convergence prep randn model prep_fn integrator_fn
                 tms (Some U1s) (Some U2s) trajectories h) = Inl e) =
          ((odd (ncols U1s) \<and> 5 \<le> ncols U1s) \<or>
           (even (ncols U1s) \<and> odd (ncols U1s div 2) \<and> 5 \<le> ncols U1s div 2))) \<and>
         (\<forall>e. fst (homodyne_strong_grid_convergence prep randn model prep_fn integrator_fn
                 tms (Some U1s) (Some U2s) trajectories h) = Inl e \<longrightarrow> e = BroadcastError)"
proof (cases "odd (ncols U1s) \<and> 5 \<le> ncols U1s")
  case True
  then have "double_increments tms U1s (Some U2s) = Inl BroadcastError"
    by (simp add: double_increments_odd_fails)
  then have "fst (homodyne_strong_grid_convergence prep randn model prep_fn integrator_fn
                 tms (Some U1s) (Some U2s) trajectories h) = Inl BroadcastError"
    by (simp add: homodyne_strong_grid_convergence_def alloc_def Let_def)
  with True show ?thesis by simp
next
  case False
  then have ok: "even (ncols U1s) \<or> ncols U1s < 5" by auto
  from double_increments_Some_shape[OF sh ok, of tms]
  obtain t A B where r1: "double_increments tms U1s (Some U2s) = Inr (Refined3 t A B)"
    and shp: "ncols A = bdim ((ncols U1s + 1) div 2) (ncols U1s div 2)" "ncols B = ncols A"
      "nrows A = nrows U1s" "nrows B = nrows U1s"
    by blast
  have bc: "(odd (ncols A) \<and> 5 \<le> ncols A) =
            (even (ncols U1s) \<and> odd (ncols U1s div 2) \<and> 5 \<le> ncols U1s div 2)"
    unfolding shp(1) using ok by (rule refined_count)
  show ?thesis
  proof (cases "odd (ncols A) \<and> 5 \<le> ncols A")
    case True
    then have "double_increments t A (Some B) = Inl BroadcastError"
      by (simp add: double_increments_odd_fails)
    then have "fst (homodyne_strong_grid_convergence prep randn model prep_fn integrator_fn
                 tms (Some U1s) (Some U2s) trajectories h) = Inl BroadcastError"
      by (simp add: homodyne_strong_grid_convergence_def alloc_def Let_def r1)
    with True bc show ?thesis by simp
  next
    case nb: False
    then have ok2: "even (ncols A) \<or> ncols A < 5" by auto
    have sh2: "ncols B = ncols A" "nrows B = nrows A" using shp by simp_all
    from double_increments_Some_shape[OF sh2 ok2, of t]
    obtain t' A' B' where r2: "double_increments t A (Some B) = Inr (Refined3 t' A' B')"
      by blast
    have "\<exists>items. fst (homodyne_strong_grid_convergence prep randn model prep_fn integrator_fn
                 tms (Some U1s) (Some U2s) trajectories h) = Inr items"
      by (simp add: homodyne_strong_grid_convergence_def alloc_def Let_def r1 r2)
    with nb bc False show ?thesis by auto
  qed
qed

text \<open>
  Claim C7, as amended. \<open>double_increments\<close> does not check the interval count. With an odd
  number \<open>c\<close> of columns in \<open>U1s\<close> it raises numpy's broadcast error, from the sum of the even
  and the odd columns, when \<open>c \<ge> 5\<close> (with or without \<open>U2s\<close>), and returns a result when \<open>c\<close> is 1
  or 3. \<open>homodyne_strong_grid_convergence\<close>, given \<open>U1s\<close> and \<open>U2s\<close> of one shape, has no check
  either: it fails, with that broadcast error, exactly when \<open>c\<close> is odd and at least 5, or \<open>c\<close>
  is even and \<open>c / 2\<close> is odd and at least 5; on every other count, divisible by four or not,
  it returns its work items.
\<close>

theorem no_interval_count_check:
  "(odd (ncols U1s) \<longrightarrow>
      (5 \<le> ncols U1s \<longrightarrow> double_increments tms U1s U2s_opt = Inl BroadcastError) \<and>
      (ncols U1s < 5 \<longrightarrow> (\<exists>t A. double_increments tms U1s None = Inr (Refined2 t A)))) \<and>
   (ncols U2s = ncols U1s \<and> nrows U2s = nrows U1s \<longrightarrow>
      ((\<exists>e. fst (homodyne_strong_grid_convergence prep randn model prep_fn integrator_fn
                 tms (Some U1s) (Some U2s) trajectories h) = Inl e) =
       ((odd (ncols U1s) \<and> 5 \<le> ncols U1s) \<or>
        (even (ncols U1s) \<and> odd (ncols U1s div 2) \<and> 5 \<le> ncols U1s div 2))) \<and>
      (\<forall>e. fst (homodyne_strong_grid_convergence prep randn model prep_fn integrator_fn
                 tms (Some U1s) (Some U2s) trajectories h) = Inl e \<longrightarrow> e = BroadcastError))"
proof (intro conjI impI)
  assume "odd (ncols U1s)" "5 \<le> ncols U1s"
  then show "double_increments tms U1s U2s_opt = Inl BroadcastError"
    by (rule double_increments_odd_fails)
next
  assume "ncols U1s < 5"
  then show "\<exists>t A. double_increments tms U1s None = Inr (Refined2 t A)"
    by (intro double_increments_None_returns) simp
next
  assume h: "ncols U2s = ncols U1s \<and> nrows U2s = nrows U1s"
  then have sh: "ncols U2s = ncols U1s" "nrows U2s = nrows U1s" by simp_all
  from grid_convergence_fails_iff[OF sh, of prep randn model prep_fn integrator_fn tms trajectories h]
  show "(\<exists>e. fst (homodyne_strong_grid_convergence prep randn model prep_fn integrator_fn
                 tms (Some U1s) (Some U2s) trajectories h) = Inl e) =
       ((odd (ncols U1s) \<and> 5 \<le> ncols U1s) \<or>
        (even (ncols U1s) \<and> odd (ncols U1s div 2) \<and> 5 \<le> ncols U1s div 2))"
    and "\<forall>e. fst (homodyne_strong_grid_convergence prep randn model prep_fn integrator_fn
                 tms (Some U1s) (Some U2s) trajectories h) = Inl e \<longrightarrow> e = BroadcastError"
    by blast+
qed

theorem no_interval_count_check_witness:
  "odd (ncols (NDArray2 3 [[1, 2, 3]])) \<and> ncols (NDArray2 3 [[1, 2, 3]]) < 5 \<and>
   ncols (NDArray2 3 [[0, 0, 0]]) = ncols (NDArray2 3 [[1, 2, 3]]) \<and>
   nrows (NDArray2 3 [[0, 0, 0]]) = nrows (NDArray2 3 [[1, 2, 3]]) \<and>
   (\<exists>t A. double_increments [0, 1, 2, 3] (NDArray2 3 [[1, 2, 3]]) None = Inr (Refined2 t A)) \<and>
   \<not> (\<exists>e. fst (homodyne_strong_grid_convergence example_prep example_randn () ()
                 example_integrator_fn [0, 1, 2, 3] (Some (NDArray2 3 [[1, 2, 3]]))
                 (Some (NDArray2 3 [[0, 0, 0]])) 1 example_heap) = Inl e)"
  using no_interval_count_check[of "NDArray2 3 [[1, 2, 3]]" "[0, 1, 2, 3]" None
      "NDArray2 3 [[0, 0, 0]]" example_prep example_randn "()" "()" example_integrator_fn 1
      example_heap]
  by (simp add: nrows_def)

lemma six_intervals_driver:
  "fst (homodyne_strong_grid_convergence prep randn model prep_fn integrator_fn
          [0, 1, 2, 3, 4, 5, 6] (Some (NDArray2 6 [[1, 1, 1, 1, 1, 1]]))
          (Some (NDArray2 6 [[0, 0, 0, 0, 0, 0]])) 1 h)
   = Inr [\<lparr>wi_integrator_fn = integrator_fn, wi_keyword_args = nxt h,
            wi_times = [0, 1, 2, 3, 4, 5, 6], wi_U1s = [1, 1, 1, 1, 1, 1],
            wi_U2s = [0, 0, 0, 0, 0, 0],
            wi_times_2 = [0, 2, 4, 6], wi_U1s_2 = [sqrt 2, sqrt 2, sqrt 2], wi_U2s_2 = [0, 0, 0],
            wi_times_4 = [0, 4], wi_U1s_4 = [2, 2], wi_U2s_4 = [0, 0]\<rparr>]"
  by (simp add: homodyne_strong_grid_convergence_def alloc_def six_intervals_once
      six_intervals_twice)

text \<open>
  Claim C7 as stated fails: on three intervals \<open>double_increments\<close> returns a result, the middle
  sample being added to both of its neighbours, and on six intervals the driver returns a work
  item whose coarsest grid \<open>[0, 4]\<close> has one interval and two samples.
\<close>

theorem no_interval_count_check_counterexample:
  "double_increments [0, 1, 2, 3] (NDArray2 3 [[1, 2, 3]]) None
     = Inr (Refined2 [0, 2] (NDArray2 2 [[3 / sqrt 2, 5 / sqrt 2]])) \<and>
   fst (homodyne_strong_grid_convergence example_prep example_randn () () example_integrator_fn
          [0, 1, 2, 3, 4, 5, 6] (Some (NDArray2 6 [[1, 1, 1, 1, 1, 1]]))
          (Some (NDArray2 6 [[0, 0, 0, 0, 0, 0]])) 1 example_heap)
     = Inr [\<lparr>wi_integrator_fn = example_integrator_fn, wi_keyword_args = 1,
              wi_times = [0, 1, 2, 3, 4, 5, 6], wi_U1s = [1, 1, 1, 1, 1, 1],
              wi_U2s = [0, 0, 0, 0, 0, 0],
              wi_times_2 = [0, 2, 4, 6], wi_U1s_2 = [sqrt 2, sqrt 2, sqrt 2],
              wi_U2s_2 = [0, 0, 0],
              wi_times_4 = [0, 4], wi_U1s_4 = [2, 2], wi_U2s_4 = [0, 0]\<rparr>]"
  using odd_count_example
    six_intervals_driver[of example_prep example_randn "()" "()" example_integrator_fn example_heap]
  by (simp add: example_heap_def)

lemma two_rows_driver:
  "homodyne_strong_grid_convergence prep randn model prep_fn integrator_fn
     [0, 1, 2, 3, 4] (Some (NDArray2 4 [[1, 1, 1, 1], [0, 0, 0, 0]]))
     (Some (NDArray2 4 [[0, 0, 0, 0], [0, 0, 0, 0]])) 2 h
   = (Inr [\<lparr>wi_integrator_fn = integrator_fn, wi_keyword_args = nxt h,
             wi_times = [0, 1, 2, 3, 4], wi_U1s = [1, 1, 1, 1], wi_U2s = [0, 0, 0, 0],
             wi_times_2 = [0, 2, 4], wi_U1s_2 = [sqrt 2, sqrt 2], wi_U2s_2 = [0, 0],
             wi_times_4 = [0, 4], wi_U1s_4 = [2], wi_U2s_4 = [0]\<rparr>,
           \<lparr>wi_integrator_fn = integrator_fn, wi_keyword_args = nxt h,
             wi_times = [0, 1, 2, 3, 4], wi_U1s = [0, 0, 0, 0], wi_U2s = [0, 0, 0, 0],
             wi_times_2 = [0, 2, 4], wi_U1s_2 = [0, 0], wi_U2s_2 = [0, 0],
             wi_times_4 = [0, 4], wi_U1s_4 = [0], wi_U2s_4 = [0]\<rparr>],
      h\<lparr>objs := (objs h)(nxt h := prep model), nxt := Suc (nxt h)\<rparr>)"
  by (simp add: homodyne_strong_grid_convergence_def alloc_def two_rows_once two_rows_twice)

text \<open>
  Claim C6 says that \<open>homodyne_strong_grid_convergence\<close> returns one convergence rate per
  trajectory. The function returns \<^verbatim>\<open>meta_kwargs\<close>, the keyword dictionaries prepared for
  \<open>homodyne_strong_calc_rate\<close>, one per trajectory, and computes no rate: here on the grid
  \<open>[0,1,2,3,4]\<close> with two trajectories.
\<close>

theorem grid_convergence_returns_work_items:
  "fst (homodyne_strong_grid_convergence prep randn model prep_fn integrator_fn
     [0, 1, 2, 3, 4] (Some (NDArray2 4 [[1, 1, 1, 1], [0, 0, 0, 0]]))
     (Some (NDArray2 4 [[0, 0, 0, 0], [0, 0, 0, 0]])) 2 h)
   = Inr [\<lparr>wi_integrator_fn = integrator_fn, wi_keyword_args = nxt h,
            wi_times = [0, 1, 2, 3, 4], wi_U1s = [1, 1, 1, 1], wi_U2s = [0, 0, 0, 0],
            wi_times_2 = [0, 2, 4], wi_U1s_2 = [sqrt 2, sqrt 2], wi_U2s_2 = [0, 0],
            wi_times_4 = [0, 4], wi_U1s_4 = [2], wi_U2s_4 = [0]\<rparr>,
          \<lparr>wi_integrator_fn = integrator_fn, wi_keyword_args = nxt h,
            wi_times = [0, 1, 2, 3, 4], wi_U1s = [0, 0, 0, 0], wi_U2s = [0, 0, 0, 0],
            wi_times_2 = [0, 2, 4], wi_U1s_2 = [0, 0], wi_U2s_2 = [0, 0],
            wi_times_4 = [0, 4], wi_U1s_4 = [0], wi_U2s_4 = [0]\<rparr>]"
  by (simp add: two_rows_driver)

lemma grid_convergence_items:
  assumes "fst (homodyne_strong_grid_convergence prep randn model prep_fn integrator_fn
             tms U1s_opt U2s_opt trajectories h) = Inr meta_kwargs"
  shows "\<forall>w\<in>set meta_kwargs. wi_keyword_args w = nxt h"
  using assms
  by (auto simp: homodyne_strong_grid_convergence_def alloc_def Let_def
      split: sum.splits refined.splits)

lemma grid_convergence_heap:
  "snd (homodyne_strong_grid_convergence prep randn model prep_fn integrator_fn
             tms U1s_opt U2s_opt trajectories h) =
   h\<lparr>objs := (objs h)(nxt h := prep model), nxt := Suc (nxt h)\<rparr>"
  by (simp add: homodyne_strong_grid_convergence_def alloc_def Let_def)

lemma calc_rate_mutates:
  assumes "keyword_args < nxt h"
  shows "objs (snd (homodyne_strong_calc_rate integrator_fn keyword_args tms U1s U2s times_2 U1s_2
                 U2s_2 times_4 U1s_4 U2s_4 h)) keyword_args
         = (objs h keyword_args)(''ts'' \<mapsto> Arr tms, ''U1s'' \<mapsto> Arr U1s, ''U2s'' \<mapsto> Arr U2s)"
  using assms
  by (simp add: homodyne_strong_calc_rate_def dict_copy_def dict_update_def alloc_def store_def
      Let_def)

text \<open>
  Claim C10. \<open>homodyne_strong_calc_rate\<close> writes the entries \<^verbatim>\<open>ts\<close>, \<^verbatim>\<open>U1s\<close> and \<^verbatim>\<open>U2s\<close> of the
  finest resolution into the dictionary object it is given, so the caller's dictionary has them
  after the call. Every work item built by \<open>homodyne_strong_grid_convergence\<close> holds a reference
  to one and the same dictionary object, the one made by the model preparation: running the rate
  computation of one work item changes the dictionary that every other work item refers to.
\<close>

theorem keyword_args_mutated_and_shared:
  "(keyword_args < nxt h \<longrightarrow>
      objs (snd (homodyne_strong_calc_rate integrator_fn keyword_args tms U1s U2s times_2 U1s_2
                   U2s_2 times_4 U1s_4 U2s_4 h)) keyword_args
        = (objs h keyword_args)(''ts'' \<mapsto> Arr tms, ''U1s'' \<mapsto> Arr U1s, ''U2s'' \<mapsto> Arr U2s)) \<and>
   (fst (homodyne_strong_grid_convergence prep randn model prep_fn fn grid U1s_opt U2s_opt
           trajectories h0) = Inr meta_kwargs \<longrightarrow>
      (\<forall>w\<in>set meta_kwargs. wi_keyword_args w = nxt h0) \<and>
      (\<forall>w\<in>set meta_kwargs. \<forall>w'\<in>set meta_kwargs.
         objs (snd (homodyne_strong_calc_rate (wi_integrator_fn w) (wi_keyword_args w)
                      (wi_times w) (wi_U1s w) (wi_U2s w) (wi_times_2 w) (wi_U1s_2 w) (wi_U2s_2 w)
                      (wi_times_4 w) (wi_U1s_4 w) (wi_U2s_4 w)
                      (snd (homodyne_strong_grid_convergence prep randn model prep_fn fn grid
                              U1s_opt U2s_opt trajectories h0))))
              (wi_keyword_args w')
           = (prep model)(''ts'' \<mapsto> Arr (wi_times w), ''U1s'' \<mapsto> Arr (wi_U1s w),
                          ''U2s'' \<mapsto> Arr (wi_U2s w))))"
proof (intro conjI impI)
  assume "keyword_args < nxt h"
  then show "objs (snd (homodyne_strong_calc_rate integrator_fn keyword_args tms U1s U2s times_2
                   U1s_2 U2s_2 times_4 U1s_4 U2s_4 h)) keyword_args
        = (objs h keyword_args)(''ts'' \<mapsto> Arr tms, ''U1s'' \<mapsto> Arr U1s, ''U2s'' \<mapsto> Arr U2s)"
    by (rule calc_rate_mutates)
next
  assume r: "fst (homodyne_strong_grid_convergence prep randn model prep_fn fn grid U1s_opt
                    U2s_opt trajectories h0) = Inr meta_kwargs"
  then show same: "\<forall>w\<in>set meta_kwargs. wi_keyword_args w = nxt h0"
    by (rule grid_convergence_items)
  let ?h = "snd (homodyne_strong_grid_convergence prep randn model prep_fn fn grid
                              U1s_opt U2s_opt trajectories h0)"
  have hp: "?h = h0\<lparr>objs := (objs h0)(nxt h0 := prep model), nxt := Suc (nxt h0)\<rparr>"
    by (rule grid_convergence_heap)
  show "\<forall>w\<in>set meta_kwargs. \<forall>w'\<in>set meta_kwargs.
         objs (snd (homodyne_strong_calc_rate (wi_integrator_fn w) (wi_keyword_args w)
                      (wi_times w) (wi_U1s w) (wi_U2s w) (wi_times_2 w) (wi_U1s_2 w) (wi_U2s_2 w)
                      (wi_times_4 w) (wi_U1s_4 w) (wi_U2s_4 w) ?h))
              (wi_keyword_args w')
           = (prep model)(''ts'' \<mapsto> Arr (wi_times w), ''U1s'' \<mapsto> Arr (wi_U1s w),
                          ''U2s'' \<mapsto> Arr (wi_U2s w))"
  proof (intro ballI)
    fix w w' assume w: "w \<in> set meta_kwargs" "w' \<in> set meta_kwargs"
    with same have a: "wi_keyword_args w = nxt h0" "wi_keyword_args w' = nxt h0" by simp_all
    have lt: "nxt h0 < nxt ?h" by (simp add: hp)
    have "objs ?h (nxt h0) = prep model" by (simp add: hp)
    with calc_rate_mutates[OF lt, of "wi_integrator_fn w" "wi_times w" "wi_U1s w" "wi_U2s w"
        "wi_times_2 w" "wi_U1s_2 w" "wi_U2s_2 w" "wi_times_4 w" "wi_U1s_4 w" "wi_U2s_4 w"]
    show "objs (snd (homodyne_strong_calc_rate (wi_integrator_fn w) (wi_keyword_args w)
                      (wi_times w) (wi_U1s w) (wi_U2s w) (wi_times_2 w) (wi_U1s_2 w) (wi_U2s_2 w)
                      (wi_times_4 w) (wi_U1s_4 w) (wi_U2s_4 w) ?h))
              (wi_keyword_args w')
           = (prep model)(''ts'' \<mapsto> Arr (wi_times w), ''U1s'' \<mapsto> Arr (wi_U1s w),
                          ''U2s'' \<mapsto> Arr (wi_U2s w))"
      by (simp add: a)
  qed
qed

theorem keyword_args_mutated_and_shared_witness:
  "(0 :: nat) < nxt example_heap \<and>
   objs (snd (homodyne_strong_calc_rate example_integrator_fn 0 [0, 1, 2, 3, 4] [1, 1, 1, 1]
                [0, 0, 0, 0] [0, 2, 4] [sqrt 2, sqrt 2] [0, 0] [0, 4] [2] [0] example_heap)) 0
     = [''ts'' \<mapsto> Arr [0, 1, 2, 3, 4], ''U1s'' \<mapsto> Arr [1, 1, 1, 1], ''U2s'' \<mapsto> Arr [0, 0, 0, 0]] \<and>
   (\<exists>w1 w2. fst (homodyne_strong_grid_convergence example_prep example_randn () ()
                  example_integrator_fn [0, 1, 2, 3, 4]
                  (Some (NDArray2 4 [[1, 1, 1, 1], [0, 0, 0, 0]]))
                  (Some (NDArray2 4 [[0, 0, 0, 0], [0, 0, 0, 0]])) 2 example_heap) = Inr [w1, w2] \<and>
            wi_U1s w1 \<noteq> wi_U1s w2 \<and>
            wi_keyword_args w1 = nxt example_heap \<and> wi_keyword_args w2 = nxt example_heap)"
proof -
  let ?w1 = "\<lparr>wi_integrator_fn = example_integrator_fn, wi_keyword_args = nxt example_heap,
             wi_times = [0, 1, 2, 3, 4], wi_U1s = [1, 1, 1, 1], wi_U2s = [0, 0, 0, 0],
             wi_times_2 = [0, 2, 4], wi_U1s_2 = [sqrt 2, sqrt 2], wi_U2s_2 = [0, 0],
             wi_times_4 = [0, 4], wi_U1s_4 = [2], wi_U2s_4 = [0]\<rparr>"
  let ?w2 = "\<lparr>wi_integrator_fn = example_integrator_fn, wi_keyword_args = nxt example_heap,
             wi_times = [0, 1, 2, 3, 4], wi_U1s = [0, 0, 0, 0], wi_U2s = [0, 0, 0, 0],
             wi_times_2 = [0, 2, 4], wi_U1s_2 = [0, 0], wi_U2s_2 = [0, 0],
             wi_times_4 = [0, 4], wi_U1s_4 = [0], wi_U2s_4 = [0]\<rparr>"
  have h: "(0 :: nat) < nxt example_heap" by (simp add: example_heap_def)
  have e: "objs example_heap 0 = Map.empty" by (simp add: example_heap_def)
  have r: "fst (homodyne_strong_grid_convergence example_prep example_randn () ()
                  example_integrator_fn [0, 1, 2, 3, 4]
                  (Some (NDArray2 4 [[1, 1, 1, 1], [0, 0, 0, 0]]))
                  (Some (NDArray2 4 [[0, 0, 0, 0], [0, 0, 0, 0]])) 2 example_heap) = Inr [?w1, ?w2]"
    by (simp add: two_rows_driver)
  from keyword_args_mutated_and_shared[of 0 example_heap example_integrator_fn "[0, 1, 2, 3, 4]"
      "[1, 1, 1, 1]" "[0, 0, 0, 0]" "[0, 2, 4]" "[sqrt 2, sqrt 2]" "[0, 0]" "[0, 4]" "[2]" "[0]"
      example_prep example_randn "()" "()" example_integrator_fn "[0, 1, 2, 3, 4]"
      "Some (NDArray2 4 [[1, 1, 1, 1], [0, 0, 0, 0]])"
      "Some (NDArray2 4 [[0, 0, 0, 0], [0, 0, 0, 0]])" 2 example_heap "[?w1, ?w2]"] h e r
  show ?thesis
    by (intro conjI exI[of _ ?w1] exI[of _ ?w2]) simp_all
qed

section \<open>The integrators and the caller's initial condition\<close>

lemma preserved_refl: "preserved s s"
  by (simp add: preserved_def)

lemma preserved_trans: "preserved s s1 \<Longrightarrow> preserved s1 s2 \<Longrightarrow> preserved s s2"
  by (auto simp: preserved_def)

lemma vstack_loop_spec:
  assumes "vstack_loop row X s steps = (res, s')"
  shows "preserved s s' \<and> (\<forall>X'. res = Inr X' \<longrightarrow> X' = X \<or> fresh s \<le> X') \<and>
         map_sum (\<lambda>e. e) (mats s') res = integrate_loop row (mats s X) steps"
  using assms
proof (induction steps arbitrary: X s)
  case Nil
  then show ?case by (auto simp: preserved_refl)
next
  case (Cons st steps)
  show ?case
  proof (cases "row (last (mats s X)) st")
    case (Inl e)
    with Cons.prems show ?thesis by (auto simp: preserved_refl)
  next
    case (Inr x)
    define s1 where "s1 = s\<lparr>mats := (mats s)(fresh s := mats s X @ [x]), fresh := Suc (fresh s)\<rparr>"
    have vs: "np_vstack s X x = (fresh s, s1)"
      by (simp add: np_vstack_def new_mat_def s1_def)
    with Cons.prems Inr have run: "vstack_loop row (fresh s) s1 steps = (res, s')" by simp
    from Cons.IH[OF run]
    have ih: "preserved s1 s'" "\<forall>X'. res = Inr X' \<longrightarrow> X' = fresh s \<or> fresh s1 \<le> X'"
      "map_sum (\<lambda>e. e) (mats s') res = integrate_loop row (mats s1 (fresh s)) steps"
      by simp_all
    have p1: "preserved s s1" by (auto simp: preserved_def s1_def)
    have f: "fresh s \<le> fresh s1" by (simp add: s1_def)
    have m: "mats s1 (fresh s) = mats s X @ [x]" by (simp add: s1_def)
    from ih(2) f have "\<forall>X'. res = Inr X' \<longrightarrow> X' = X \<or> fresh s \<le> X'" by auto
    with preserved_trans[OF p1 ih(1)] ih(3) m Inr show ?thesis by simp
  qed
qed

lemma append_loop_spec:
  assumes "append_loop row X s steps = (res, s')"
    and "n \<le> X" and "X < fresh s" and "n \<le> fresh s"
    and "\<forall>r\<in>set (lists s X). n \<le> r \<and> r < fresh s" and "lists s X \<noteq> []"
  shows "fresh s \<le> fresh s' \<and>
         (\<forall>r<n. vecs s' r = vecs s r \<and> mats s' r = mats s r \<and> lists s' r = lists s r) \<and>
         (\<forall>X'. res = Inr X' \<longrightarrow> X' = X) \<and>
         (\<forall>r\<in>set (lists s' X). n \<le> r) \<and>
         map_sum (\<lambda>e. e) (\<lambda>X. map (vecs s') (lists s' X)) res
           = integrate_loop row (map (vecs s) (lists s X)) steps"
  using assms
proof (induction steps arbitrary: s)
  case Nil
  then show ?case by auto
next
  case (Cons st steps)
  have lm: "last (map (vecs s) (lists s X)) = vecs s (last (lists s X))"
    using Cons.prems(6) by (simp add: last_map)
  show ?case
  proof (cases "row (vecs s (last (lists s X))) st")
    case (Inl e)
    with Cons.prems lm show ?thesis by auto
  next
    case (Inr x)
    define s1 where "s1 = s\<lparr>vecs := (vecs s)(fresh s := x), fresh := Suc (fresh s)\<rparr>"
    define s2 where "s2 = list_append s1 X (fresh s)"
    have nv: "new_vec s x = (fresh s, s1)" by (simp add: new_vec_def s1_def)
    with Cons.prems(1) Inr have run: "append_loop row X s2 steps = (res, s')"
      by (simp add: s2_def)
    have l2: "lists s2 X = lists s X @ [fresh s]"
      by (simp add: s2_def list_append_def s1_def)
    have f2: "fresh s2 = Suc (fresh s)" by (simp add: s2_def list_append_def s1_def)
    have v2: "vecs s2 = (vecs s)(fresh s := x)" by (simp add: s2_def list_append_def s1_def)
    have m2: "mats s2 = mats s" by (simp add: s2_def list_append_def s1_def)
    have pre: "X < fresh s2" "n \<le> fresh s2" "\<forall>r\<in>set (lists s2 X). n \<le> r \<and> r < fresh s2"
      "lists s2 X \<noteq> []"
      using Cons.prems(3,4,5) by (auto simp: l2 f2)
    from Cons.IH[OF run Cons.prems(2) pre]
    have ih: "fresh s2 \<le> fresh s'"
      "\<forall>r<n. vecs s' r = vecs s2 r \<and> mats s' r = mats s2 r \<and> lists s' r = lists s2 r"
      "\<forall>X'. res = Inr X' \<longrightarrow> X' = X" "\<forall>r\<in>set (lists s' X). n \<le> r"
      "map_sum (\<lambda>e. e) (\<lambda>X. map (vecs s') (lists s' X)) res
           = integrate_loop row (map (vecs s2) (lists s2 X)) steps"
      by simp_all
    have old: "\<forall>r<n. vecs s2 r = vecs s r \<and> mats s2 r = mats s r \<and> lists s2 r = lists s r"
      using Cons.prems(2,4) by (auto simp: v2 m2 s2_def list_append_def s1_def)
    have rows2: "map (vecs s2) (lists s2 X) = map (vecs s) (lists s X) @ [x]"
      using Cons.prems(5) by (auto simp: l2 v2)
    from ih old rows2 f2 Inr lm show ?thesis by simp
  qed
qed

lemma leaves_alone_error: "leaves_alone s X0 (Inl e, s)"
  by (simp add: leaves_alone_def preserved_refl)

lemma leaves_aloneI:
  assumes "X0 < fresh s" "preserved s s'"
    and "\<And>T. res = Inr T \<Longrightarrow> \<forall>q\<in>set (reachable_refs s' T). fresh s \<le> q"
  shows "leaves_alone s X0 (res, s')"
proof -
  have v: "vecs s' X0 = vecs s X0" using assms(1,2) by (simp add: preserved_def)
  have "X0 \<notin> set (reachable_refs s' T) \<and>
        (\<forall>q\<in>set (reachable_refs s' T). \<forall>v. vecs (s'\<lparr>vecs := (vecs s')(q := v)\<rparr>) X0 = vecs s X0)"
    if "res = Inr T" for T
  proof -
    from assms(3)[OF that] assms(1) have "\<forall>q\<in>set (reachable_refs s' T). q \<noteq> X0" by auto
    then show ?thesis using v by auto
  qed
  with v assms(2) show ?thesis by (simp add: leaves_alone_def)
qed

lemma array_run:
  assumes "X0 < fresh s"
  shows "leaves_alone s X0
           (case np_array_rows s [X0] of (X, s1) \<Rightarrow>
              (case vstack_loop row X s1 steps of (r, s2) \<Rightarrow> (map_sum id ArrayRef r, s2)))"
    and "returned_rows
           (case np_array_rows s [X0] of (X, s1) \<Rightarrow>
              (case vstack_loop row X s1 steps of (r, s2) \<Rightarrow> (map_sum id ArrayRef r, s2)))
         = integrate_loop row [vecs s X0] steps"
proof -
  define s1 where "s1 = s\<lparr>mats := (mats s)(fresh s := [vecs s X0]), fresh := Suc (fresh s)\<rparr>"
  have a: "np_array_rows s [X0] = (fresh s, s1)"
    by (simp add: np_array_rows_def new_mat_def s1_def)
  obtain r s2 where run: "vstack_loop row (fresh s) s1 steps = (r, s2)" by (cases "vstack_loop row (fresh s) s1 steps")
  from vstack_loop_spec[OF run]
  have sp: "preserved s1 s2" "\<forall>X'. r = Inr X' \<longrightarrow> X' = fresh s \<or> fresh s1 \<le> X'"
    "map_sum (\<lambda>e. e) (mats s2) r = integrate_loop row (mats s1 (fresh s)) steps"
    by simp_all
  have p: "preserved s s2"
    by (rule preserved_trans[OF _ sp(1)]) (auto simp: preserved_def s1_def)
  have refs: "\<forall>q\<in>set (reachable_refs s2 T). fresh s \<le> q" if "map_sum id ArrayRef r = Inr T" for T
    using that sp(2) by (cases r) (auto simp: reachable_refs_def s1_def)
  show "leaves_alone s X0
           (case np_array_rows s [X0] of (X, s1) \<Rightarrow>
              (case vstack_loop row X s1 steps of (r, s2) \<Rightarrow> (map_sum id ArrayRef r, s2)))"
    using leaves_aloneI[OF assms p refs] by (simp add: a run)
  have "map_sum id (trajectory_rows s2) (map_sum id ArrayRef r) = map_sum (\<lambda>e. e) (mats s2) r"
    by (cases r) (simp_all add: trajectory_rows_def)
  moreover have "mats s1 (fresh s) = [vecs s X0]" by (simp add: s1_def)
  ultimately show "returned_rows
           (case np_array_rows s [X0] of (X, s1) \<Rightarrow>
              (case vstack_loop row X s1 steps of (r, s2) \<Rightarrow> (map_sum id ArrayRef r, s2)))
         = integrate_loop row [vecs s X0] steps"
    using sp(3) by (simp add: a run returned_rows_def)
qed

lemma list_run:
  assumes "X0 < fresh s"
  shows "leaves_alone s X0
           (case np_array_copy s X0 of (r0, s1) \<Rightarrow>
             (case new_list s1 [r0] of (X, s2) \<Rightarrow>
             (case append_loop row X s2 steps of (r, s3) \<Rightarrow> (map_sum id ListRef r, s3))))"
    and "returned_rows
           (case np_array_copy s X0 of (r0, s1) \<Rightarrow>
             (case new_list s1 [r0] of (X, s2) \<Rightarrow>
             (case append_loop row X s2 steps of (r, s3) \<Rightarrow> (map_sum id ListRef r, s3))))
         = integrate_loop row [vecs s X0] steps"
proof -
  define s1 where "s1 = s\<lparr>vecs := (vecs s)(fresh s := vecs s X0), fresh := Suc (fresh s)\<rparr>"
  define s2 where "s2 = s1\<lparr>lists := (lists s1)(Suc (fresh s) := [fresh s]),
                            fresh := Suc (Suc (fresh s))\<rparr>"
  have a: "np_array_copy s X0 = (fresh s, s1)"
    by (simp add: np_array_copy_def new_vec_def s1_def)
  have b: "new_list s1 [fresh s] = (Suc (fresh s), s2)"
    by (simp add: new_list_def s1_def s2_def)
  obtain r s3 where run: "append_loop row (Suc (fresh s)) s2 steps = (r, s3)"
    by (cases "append_loop row (Suc (fresh s)) s2 steps")
  have pre: "fresh s \<le> Suc (fresh s)" "Suc (fresh s) < fresh s2" "fresh s \<le> fresh s2"
    "\<forall>r\<in>set (lists s2 (Suc (fresh s))). fresh s \<le> r \<and> r < fresh s2"
    "lists s2 (Suc (fresh s)) \<noteq> []"
    by (simp_all add: s2_def s1_def)
  from append_loop_spec[OF run pre]
  have sp: "fresh s2 \<le> fresh s3"
    "\<forall>r<fresh s. vecs s3 r = vecs s2 r \<and> mats s3 r = mats s2 r \<and> lists s3 r = lists s2 r"
    "\<forall>X'. r = Inr X' \<longrightarrow> X' = Suc (fresh s)"
    "\<forall>r\<in>set (lists s3 (Suc (fresh s))). fresh s \<le> r"
    "map_sum (\<lambda>e. e) (\<lambda>X. map (vecs s3) (lists s3 X)) r
       = integrate_loop row (map (vecs s2) (lists s2 (Suc (fresh s)))) steps"
    by simp_all
  have p: "preserved s s3"
    using sp(1,2) by (auto simp: preserved_def s2_def s1_def)
  have refs: "\<forall>q\<in>set (reachable_refs s3 T). fresh s \<le> q" if "map_sum id ListRef r = Inr T" for T
    using that sp(3,4) by (cases r) (auto simp: reachable_refs_def)
  show "leaves_alone s X0
           (case np_array_copy s X0 of (r0, s1) \<Rightarrow>
             (case new_list s1 [r0] of (X, s2) \<Rightarrow>
             (case append_loop row X s2 steps of (r, s3) \<Rightarrow> (map_sum id ListRef r, s3))))"
    using leaves_aloneI[OF assms p refs] by (simp add: a b run)
  have "map_sum id (trajectory_rows s3) (map_sum id ListRef r)
        = map_sum (\<lambda>e. e) (\<lambda>X. map (vecs s3) (lists s3 X)) r"
    by (cases r) (simp_all add: trajectory_rows_def)
  moreover have "map (vecs s2) (lists s2 (Suc (fresh s))) = [vecs s X0]"
    by (simp add: s2_def s1_def)
  ultimately show "returned_rows
           (case np_array_copy s X0 of (r0, s1) \<Rightarrow>
             (case new_list s1 [r0] of (X, s2) \<Rightarrow>
             (case append_loop row X s2 steps of (r, s3) \<Rightarrow> (map_sum id ListRef r, s3))))
         = integrate_loop row [vecs s X0] steps"
    using sp(5) by (simp add: a b run returned_rows_def)
qed

lemma taylor_run:
  assumes "X0 < fresh s"
  shows "leaves_alone s X0
           (case np_array_copy s X0 of (r0, s1) \<Rightarrow>
             (case new_list s1 [r0] of (Xs, s2) \<Rightarrow>
             (case steps of
                [] \<Rightarrow> (Inr (ListRef Xs), s2)
              | st # rest \<Rightarrow>
                  (case row (vecs s2 (last (lists s2 Xs))) st of
                     Inl e \<Rightarrow> (Inl e, s2)
                   | Inr x \<Rightarrow>
                       (case np_vstack_list s2 Xs x of (X, s3) \<Rightarrow>
                       (case vstack_loop row X s3 rest of
                          (r, s4) \<Rightarrow> (map_sum id ArrayRef r, s4)))))))"
    (is "leaves_alone s X0 ?run")
    and "returned_rows
           (case np_array_copy s X0 of (r0, s1) \<Rightarrow>
             (case new_list s1 [r0] of (Xs, s2) \<Rightarrow>
             (case steps of
                [] \<Rightarrow> (Inr (ListRef Xs), s2)
              | st # rest \<Rightarrow>
                  (case row (vecs s2 (last (lists s2 Xs))) st of
                     Inl e \<Rightarrow> (Inl e, s2)
                   | Inr x \<Rightarrow>
                       (case np_vstack_list s2 Xs x of (X, s3) \<Rightarrow>
                       (case vstack_loop row X s3 rest of
                          (r, s4) \<Rightarrow> (map_sum id ArrayRef r, s4)))))))
         = integrate_loop row [vecs s X0] steps"
proof -
  define s1 where "s1 = s\<lparr>vecs := (vecs s)(fresh s := vecs s X0), fresh := Suc (fresh s)\<rparr>"
  define s2 where "s2 = s1\<lparr>lists := (lists s1)(Suc (fresh s) := [fresh s]),
                            fresh := Suc (Suc (fresh s))\<rparr>"
  have a: "np_array_copy s X0 = (fresh s, s1)"
    by (simp add: np_array_copy_def new_vec_def s1_def)
  have b: "new_list s1 [fresh s] = (Suc (fresh s), s2)"
    by (simp add: new_list_def s1_def s2_def)
  have p2: "preserved s s2" by (auto simp: preserved_def s2_def s1_def)
  have first: "vecs s2 (last (lists s2 (Suc (fresh s)))) = vecs s X0"
    by (simp add: s2_def s1_def)
  have run_eq: "?run = (case steps of
                [] \<Rightarrow> (Inr (ListRef (Suc (fresh s))), s2)
              | st # rest \<Rightarrow>
                  (case row (vecs s X0) st of
                     Inl e \<Rightarrow> (Inl e, s2)
                   | Inr x \<Rightarrow>
                       (case np_vstack_list s2 (Suc (fresh s)) x of (X, s3) \<Rightarrow>
                       (case vstack_loop row X s3 rest of
                          (r, s4) \<Rightarrow> (map_sum id ArrayRef r, s4)))))"
    by (cases steps) (simp_all add: a b first)
  have "leaves_alone s X0 ?run \<and> returned_rows ?run = integrate_loop row [vecs s X0] steps"
  proof (cases steps)
    case Nil
    have "\<forall>q\<in>set (reachable_refs s2 (ListRef (Suc (fresh s)))). fresh s \<le> q"
      by (simp add: reachable_refs_def s2_def s1_def)
    then have "leaves_alone s X0 (Inr (ListRef (Suc (fresh s))), s2)"
      using assms p2 by (intro leaves_aloneI) auto
    moreover have "returned_rows (Inr (ListRef (Suc (fresh s))), s2) = Inr [vecs s X0]"
      by (simp add: returned_rows_def trajectory_rows_def s2_def s1_def)
    ultimately show ?thesis using Nil by (simp add: a b)
  next
    case (Cons st rest)
    show ?thesis
    proof (cases "row (vecs s X0) st")
      case (Inl e)
      have "leaves_alone s X0 (Inl e, s2)"
        using assms p2 by (intro leaves_aloneI) auto
      then show ?thesis using Cons Inl by (simp add: a b first returned_rows_def)
    next
      case (Inr x)
      define s3 where "s3 = s2\<lparr>mats := (mats s2)(fresh s2 := [vecs s X0, x]),
                                fresh := Suc (fresh s2)\<rparr>"
      have c: "np_vstack_list s2 (Suc (fresh s)) x = (fresh s2, s3)"
        by (simp add: np_vstack_list_def new_mat_def s3_def) (simp add: s2_def s1_def)
      obtain r s4 where run: "vstack_loop row (fresh s2) s3 rest = (r, s4)"
        by (cases "vstack_loop row (fresh s2) s3 rest")
      from vstack_loop_spec[OF run]
      have sp: "preserved s3 s4" "\<forall>X'. r = Inr X' \<longrightarrow> X' = fresh s2 \<or> fresh s3 \<le> X'"
        "map_sum (\<lambda>e. e) (mats s4) r = integrate_loop row (mats s3 (fresh s2)) rest"
        by simp_all
      have p3: "preserved s2 s3" by (auto simp: preserved_def s3_def)
      have p: "preserved s s4" by (rule preserved_trans[OF p2 preserved_trans[OF p3 sp(1)]])
      have f: "fresh s \<le> fresh s2" "fresh s2 \<le> fresh s3"
        by (simp_all add: s3_def s2_def s1_def)
      have refs: "\<forall>q\<in>set (reachable_refs s4 T). fresh s \<le> q"
        if "map_sum id ArrayRef r = Inr T" for T
        using that sp(2) f by (cases r) (auto simp: reachable_refs_def)
      have la: "leaves_alone s X0 (map_sum id ArrayRef r, s4)"
        using assms p refs by (rule leaves_aloneI)
      have "map_sum id (trajectory_rows s4) (map_sum id ArrayRef r) = map_sum (\<lambda>e. e) (mats s4) r"
        by (cases r) (simp_all add: trajectory_rows_def)
      moreover have "mats s3 (fresh s2) = [vecs s X0] @ [x]" by (simp add: s3_def)
      ultimately have "returned_rows (map_sum id ArrayRef r, s4)
                       = integrate_loop row ([vecs s X0] @ [x]) rest"
        using sp(3) by (simp add: returned_rows_def)
      with la Cons Inr show ?thesis by (simp add: a b first c run)
    qed
  qed
  then show "leaves_alone s X0 ?run"
    and "returned_rows ?run = integrate_loop row [vecs s X0] steps"
    by simp_all
qed

lemma euler_on_store_ok:
  assumes "X0 < fresh s"
  shows "leaves_alone s X0 (euler_on_store drift_fn diffusion_fn X0 ts Us s) \<and>
         returned_rows (euler_on_store drift_fn diffusion_fn X0 ts Us s)
           = euler drift_fn diffusion_fn (vecs s X0) ts Us"
proof (cases "np_product2 (np_sqrt (time_increments ts)) Us")
  case (Inl e)
  then show ?thesis
    by (simp add: euler_on_store_def euler_def leaves_alone_error returned_rows_def)
next
  case (Inr dWs)
  show ?thesis
    unfolding euler_on_store_def euler_def Let_def Inr sum.case
    by (intro conjI array_run[OF assms])
qed

lemma milstein_on_store_ok:
  assumes "X0 < fresh s"
  shows "leaves_alone s X0 (milstein_on_store drift diffusion b_dx_b X0 ts Us s) \<and>
         returned_rows (milstein_on_store drift diffusion b_dx_b X0 ts Us s)
           = milstein drift diffusion b_dx_b (vecs s X0) ts Us"
proof (cases "np_product2 (np_sqrt (time_increments ts)) Us")
  case (Inl e)
  then show ?thesis
    by (simp add: milstein_on_store_def milstein_def leaves_alone_error returned_rows_def)
next
  case (Inr dWs)
  show ?thesis
    unfolding milstein_on_store_def milstein_def Let_def Inr sum.case
    by (intro conjI array_run[OF assms])
qed

lemma faulty_milstein_on_store_ok:
  assumes "X0 < fresh s"
  shows "leaves_alone s X0 (faulty_milstein_on_store drift diffusion b_dx_b X0 ts Us s) \<and>
         returned_rows (faulty_milstein_on_store drift diffusion b_dx_b X0 ts Us s)
           = faulty_milstein drift diffusion b_dx_b (vecs s X0) ts Us"
proof (cases "np_product2 (np_sqrt (time_increments ts)) Us")
  case (Inl e)
  then show ?thesis
    by (simp add: faulty_milstein_on_store_def faulty_milstein_def leaves_alone_error
        returned_rows_def)
next
  case (Inr dWs)
  show ?thesis
    unfolding faulty_milstein_on_store_def faulty_milstein_def Let_def Inr sum.case
    by (intro conjI list_run[OF assms])
qed

lemma meas_euler_on_store_ok:
  assumes "X0 < fresh s"
  shows "leaves_alone s X0 (meas_euler_on_store drift_fn diffusion_fn dW_fn X0 ts dMs s) \<and>
         returned_rows (meas_euler_on_store drift_fn diffusion_fn dW_fn X0 ts dMs s)
           = meas_euler drift_fn diffusion_fn dW_fn (vecs s X0) ts dMs"
  unfolding meas_euler_on_store_def meas_euler_def Let_def
  by (intro conjI array_run[OF assms])

lemma meas_milstein_on_store_ok:
  assumes "X0 < fresh s"
  shows "leaves_alone s X0
           (meas_milstein_on_store drift_fn diffusion_fn b_dx_b_fn dW_fn X0 ts dMs s) \<and>
         returned_rows (meas_milstein_on_store drift_fn diffusion_fn b_dx_b_fn dW_fn X0 ts dMs s)
           = meas_milstein drift_fn diffusion_fn b_dx_b_fn dW_fn (vecs s X0) ts dMs"
  unfolding meas_milstein_on_store_def meas_milstein_def Let_def
  by (intro conjI array_run[OF assms])

lemma taylor_on_store_ok:
  assumes "X0 < fresh s"
  shows "leaves_alone s X0
           (time_ind_taylor_1_5_on_store drift diffusion b_dx_b b_dx_a a_dx_b a_dx_a b_dx_b_dx_b
              b_b_dx_dx_b b_b_dx_dx_a X0 ts U1s U2s s) \<and>
         returned_rows
           (time_ind_taylor_1_5_on_store drift diffusion b_dx_b b_dx_a a_dx_b a_dx_a b_dx_b_dx_b
              b_b_dx_dx_b b_b_dx_dx_a X0 ts U1s U2s s)
           = time_ind_taylor_1_5 drift diffusion b_dx_b b_dx_a a_dx_b a_dx_a b_dx_b_dx_b
               b_b_dx_dx_b b_b_dx_dx_a (vecs s X0) ts U1s U2s"
proof -
  let ?dts = "time_increments ts"
  let ?sq = "np_sqrt ?dts"
  show ?thesis
  proof (cases "np_binop1 (\<lambda>u s. map_option (\<lambda>r. u * r) s) U1s ?sq")
    case (Inl e)
    then show ?thesis
      by (simp add: time_ind_taylor_1_5_on_store_def time_ind_taylor_1_5_def leaves_alone_error
          returned_rows_def)
  next
    case dWs: (Inr dWs)
    show ?thesis
    proof (cases "np_binop1 (\<lambda>u1 u2. u1 + u2) U1s (map (\<lambda>u. u / sqrt 3) U2s)")
      case (Inl e)
      then show ?thesis
        by (simp add: time_ind_taylor_1_5_on_store_def time_ind_taylor_1_5_def leaves_alone_error
            returned_rows_def dWs)
    next
      case Usum: (Inr Usum)
      show ?thesis
      proof (cases "np_binop1 (\<lambda>u s. map_option (\<lambda>r. u * r) s) Usum ?sq")
        case (Inl e)
        then show ?thesis
          by (simp add: time_ind_taylor_1_5_on_store_def time_ind_taylor_1_5_def
              leaves_alone_error returned_rows_def dWs Usum)
      next
        case Usqrt: (Inr Usqrt)
        show ?thesis
        proof (cases "np_binop1 (\<lambda>z dt. map_option (\<lambda>r. r * dt) z) Usqrt ?dts")
          case (Inl e)
          then show ?thesis
            by (simp add: time_ind_taylor_1_5_on_store_def time_ind_taylor_1_5_def
                leaves_alone_error returned_rows_def dWs Usum Usqrt)
        next
          case Uprod: (Inr Uprod)
          show ?thesis
            unfolding time_ind_taylor_1_5_on_store_def time_ind_taylor_1_5_def Let_def
              dWs Usum Usqrt Uprod sum.case
            by (intro conjI taylor_run[OF assms])
        qed
      qed
    qed
  qed
qed

text \<open>
  Claim C9. No integrator changes the array \<open>X0\<close> of its caller: after the run, whether it
  returns or fails, \<open>X0\<close> holds the values it held, as does every object that existed before;
  the returned trajectory is built from new objects only, so its first row is a copy of \<open>X0\<close>
  and not \<open>X0\<close> itself, and writing into the result does not change \<open>X0\<close>. The rows of the
  returned trajectory are those computed from the value of \<open>X0\<close>.
\<close>

theorem initial_condition_not_aliased:
  fixes drift diffusion b_dx_b :: "'v::real_vector \<Rightarrow> real \<Rightarrow> 'v"
    and a b c1 c2 c3 c4 c5 c6 c7 :: "'v \<Rightarrow> 'v"
    and dW_fn :: "'m \<Rightarrow> real \<Rightarrow> 'v \<Rightarrow> real \<Rightarrow> real"
  assumes "X0 < fresh s"
  shows "leaves_alone s X0 (euler_on_store drift diffusion X0 ts Us s) \<and>
         returned_rows (euler_on_store drift diffusion X0 ts Us s)
           = euler drift diffusion (vecs s X0) ts Us \<and>
         leaves_alone s X0 (meas_euler_on_store drift diffusion dW_fn X0 ts dMs s) \<and>
         returned_rows (meas_euler_on_store drift diffusion dW_fn X0 ts dMs s)
           = meas_euler drift diffusion dW_fn (vecs s X0) ts dMs \<and>
         leaves_alone s X0 (milstein_on_store drift diffusion b_dx_b X0 ts Us s) \<and>
         returned_rows (milstein_on_store drift diffusion b_dx_b X0 ts Us s)
           = milstein drift diffusion b_dx_b (vecs s X0) ts Us \<and>
         leaves_alone s X0 (meas_milstein_on_store drift diffusion b_dx_b dW_fn X0 ts dMs s) \<and>
         returned_rows (meas_milstein_on_store drift diffusion b_dx_b dW_fn X0 ts dMs s)
           = meas_milstein drift diffusion b_dx_b dW_fn (vecs s X0) ts dMs \<and>
         leaves_alone s X0
           (time_ind_taylor_1_5_on_store a b c1 c2 c3 c4 c5 c6 c7 X0 ts Us U2s s) \<and>
         returned_rows (time_ind_taylor_1_5_on_store a b c1 c2 c3 c4 c5 c6 c7 X0 ts Us U2s s)
           = time_ind_taylor_1_5 a b c1 c2 c3 c4 c5 c6 c7 (vecs s X0) ts Us U2s \<and>
         leaves_alone s X0 (faulty_milstein_on_store drift diffusion b_dx_b X0 ts Us s) \<and>
         returned_rows (faulty_milstein_on_store drift diffusion b_dx_b X0 ts Us s)
           = faulty_milstein drift diffusion b_dx_b (vecs s X0) ts Us"
  using euler_on_store_ok[OF assms, of drift diffusion ts Us]
    meas_euler_on_store_ok[OF assms, of drift diffusion dW_fn ts dMs]
    milstein_on_store_ok[OF assms, of drift diffusion b_dx_b ts Us]
    meas_milstein_on_store_ok[OF assms, of drift diffusion b_dx_b dW_fn ts dMs]
    taylor_on_store_ok[OF assms, of a b c1 c2 c3 c4 c5 c6 c7 ts Us U2s]
    faulty_milstein_on_store_ok[OF assms, of drift diffusion b_dx_b ts Us]
  by blast

lemma example_euler_on_store:
  "fst (euler_on_store linear_coef unit_coef 0 [0, 1] [1] example_store) = Inr (ArrayRef 2) \<and>
   mats (snd (euler_on_store linear_coef unit_coef 0 [0, 1] [1] example_store)) 2 = [1, 3] \<and>
   vecs (snd (euler_on_store linear_coef unit_coef 0 [0, 1] [1] example_store)) 0 = 1"
  by (simp add: euler_on_store_def np_product2_def np_sqrt_def time_increments_def
      np_array_rows_def new_mat_def np_vstack_def euler_update_def linear_coef_def unit_coef_def
      example_store_def numeral_2_eq_2)

lemma example_faulty_milstein_on_store:
  "fst (faulty_milstein_on_store linear_coef unit_coef unit_coef 0 [0, 1] [1] example_store)
     = Inr (ListRef 2) \<and>
   lists (snd (faulty_milstein_on_store linear_coef unit_coef unit_coef 0 [0, 1] [1]
                 example_store)) 2 = [1, 3] \<and>
   vecs (snd (faulty_milstein_on_store linear_coef unit_coef unit_coef 0 [0, 1] [1]
                example_store)) 3 = 3 \<and>
   vecs (snd (faulty_milstein_on_store linear_coef unit_coef unit_coef 0 [0, 1] [1]
                example_store)) 0 = 1"
  by (simp add: faulty_milstein_on_store_def np_product2_def np_sqrt_def time_increments_def
      np_array_copy_def new_vec_def new_list_def list_append_def faulty_milstein_update_def
      linear_coef_def unit_coef_def example_store_def numeral_2_eq_2 numeral_3_eq_3)

theorem initial_condition_not_aliased_witness:
  "(0 :: nat) < fresh example_store \<and>
   leaves_alone example_store 0 (euler_on_store linear_coef unit_coef 0 [0, 1] [1] example_store) \<and>
   fst (euler_on_store linear_coef unit_coef 0 [0, 1] [1] example_store) = Inr (ArrayRef 2) \<and>
   mats (snd (euler_on_store linear_coef unit_coef 0 [0, 1] [1] example_store)) 2 = [1, 3] \<and>
   vecs (snd (euler_on_store linear_coef unit_coef 0 [0, 1] [1] example_store)) 0 = 1 \<and>
   leaves_alone example_store 0
     (faulty_milstein_on_store linear_coef unit_coef unit_coef 0 [0, 1] [1] example_store) \<and>
   fst (faulty_milstein_on_store linear_coef unit_coef unit_coef 0 [0, 1] [1] example_store)
     = Inr (ListRef 2) \<and>
   lists (snd (faulty_milstein_on_store linear_coef unit_coef unit_coef 0 [0, 1] [1]
                 example_store)) 2 = [1, 3]"
proof -
  have h: "(0 :: nat) < fresh example_store" by (simp add: example_store_def)
  from initial_condition_not_aliased[OF h, of linear_coef unit_coef "[0, 1]" "[1]" direct_dW "[1]"
      unit_coef linear_coef_ti unit_coef_ti zero_coef_ti zero_coef_ti zero_coef_ti zero_coef_ti
      zero_coef_ti zero_coef_ti zero_coef_ti "[0]"]
    h example_euler_on_store example_faulty_milstein_on_store
  show ?thesis by blast
qed

end
